theory Spec2Isabelle
  imports Main "HOL-Library.Word" "HOL-Library.Signed_Division" "HOL-Library.AList"
begin

text \<open>
  A model of the Go package \<open>log\<close> (\<open>hezof/log\<close>): the record pool and the formatter of
  \<open>logger.go\<close>, and the sink \<open>fileLogger\<close> with its two write paths, its rotation and its
  daemon. Each Go function is a function of the same name here. What the package
  takes from the Go runtime and the operating system (the clock, the file system, the
  buffered writer, the pool's choices, the schedule of the daemon) is modelled first
  or passed in as an argument. The properties proved are numbered C1 to C10.
\<close>

section \<open>Values shared by the whole package\<close>

text \<open>
  Byte slices and Go strings are both lists of bytes, written as \<open>string\<close>.
  A Go call either returns or panics; a panic is a value of \<open>result\<close>.
  Go error values that the package passes around are values of \<open>error\<close>.
\<close>

datatype panic =
    NilPointerDereference | IndexOutOfRange | SendOnClosedChannel | CloseOfClosedChannel
  | MakesliceCapOutOfRange

datatype 'a result = Return 'a | Panic panic

datatype error = ErrOpen string | ErrClosed | ErrNoSpace | ErrProcessDone

text \<open>
  A reading of the wall clock (\<open>time.Now()\<close>), with the fields that \<open>Date\<close>,
  \<open>Clock\<close> and \<open>Weekday\<close> return. The clock is an input of every operation that reads it.
\<close>

record gotime =
  tYear :: int
  tMonth :: int
  tDay :: int
  tHour :: int
  tMinute :: int
  tSecond :: int
  tWeekday :: int

text \<open>The ranges the Go time package guarantees, with a four-digit year.\<close>

definition valid_time :: "gotime \<Rightarrow> bool" where
  "valid_time t =
     (0 \<le> tYear t \<and> tYear t \<le> 9999 \<and> 1 \<le> tMonth t \<and> tMonth t \<le> 12 \<and>
      1 \<le> tDay t \<and> tDay t \<le> 31 \<and> 0 \<le> tHour t \<and> tHour t \<le> 23 \<and>
      0 \<le> tMinute t \<and> tMinute t \<le> 59 \<and> 0 \<le> tSecond t \<and> tSecond t \<le> 59 \<and>
      0 \<le> tWeekday t \<and> tWeekday t \<le> 6)"

text \<open>
  Go's \<open>int\<close> and \<open>int64\<close> are 64-bit two's complement numbers (on a 64-bit platform):
  the result of an addition, subtraction or multiplication is wrapped into their range.
\<close>

definition wrap64 :: "int \<Rightarrow> int" where
  "wrap64 x = (x + 2 ^ 63) mod 2 ^ 64 - 2 ^ 63"

type_synonym Cycle = "8 word"

definition CycleOff :: Cycle where "CycleOff = 0"
definition CycleHourly :: Cycle where "CycleHourly = 1"
definition CycleDaily :: Cycle where "CycleDaily = 2"
definition CycleWeekly :: Cycle where "CycleWeekly = 3"
definition CycleMonthly :: Cycle where "CycleMonthly = 4"

type_synonym Level = "8 word"

definition LevelDebug :: Level where "LevelDebug = 0"
definition LevelInfo :: Level where "LevelInfo = 1"
definition LevelWarn :: Level where "LevelWarn = 2"
definition LevelError :: Level where "LevelError = 3"
definition LevelOff :: Level where "LevelOff = 4"

definition SuffixFormat :: string where "SuffixFormat = ''.150405''"

definition STDOUT :: string where "STDOUT = ''stdout''"
definition STDERR :: string where "STDERR = ''stderr''"

definition defaultBufferLength :: int where "defaultBufferLength = 256 * 1024"
definition defaultBufferPeriod :: int where "defaultBufferPeriod = 15 * 1000000000"
definition defaultRecordLength :: int where "defaultRecordLength = 2048"
definition defaultRecordFactor :: int where "defaultRecordFactor = 10"

section \<open>Configuration\<close>

record FileConfig =
  File :: string
  Level :: Level
  RotateBytes :: int
  RotateCycle :: Cycle
  BufferLength :: int
  BufferPeriod :: int
  RecordLength :: int
  RecordFactor :: int
  DiscardThreshold :: int

text \<open>\<open>new(FileConfig)\<close>: every field has its zero value.\<close>

definition newFileConfig :: FileConfig where
  "newFileConfig =
     \<lparr>File = [], Level = 0, RotateBytes = 0, RotateCycle = 0, BufferLength = 0,
      BufferPeriod = 0, RecordLength = 0, RecordFactor = 0, DiscardThreshold = 0\<rparr>"

text \<open>
  \<open>mergeDefault\<close> takes a pointer, which may be nil (\<open>None\<close>); it fills the defaults into
  the configuration it points to and returns it.
\<close>

definition mergeDefault :: "FileConfig option \<Rightarrow> FileConfig" where
  "mergeDefault fs0 =
     (let fs = (case fs0 of None \<Rightarrow> newFileConfig | Some c \<Rightarrow> c);
          fs = (if File fs = [] then fs\<lparr>File := STDOUT\<rparr> else fs);
          fs = (if BufferLength fs \<le> 0 then fs\<lparr>BufferLength := defaultBufferLength\<rparr> else fs);
          fs = (if BufferPeriod fs \<le> 0 then fs\<lparr>BufferPeriod := defaultBufferPeriod\<rparr> else fs);
          fs = (if RecordLength fs \<le> 0 then fs\<lparr>RecordLength := defaultRecordLength\<rparr> else fs);
          fs = (if RecordFactor fs \<le> 0 then fs\<lparr>RecordFactor := defaultRecordFactor\<rparr> else fs)
      in fs)"

section \<open>Records and their formatter (logger.go)\<close>

text \<open>
  The Go type \<open>record\<close>. Its \<open>buffer\<close> is a slice: the bytes it holds and the capacity
  \<open>bcap\<close> of its backing array. The 26-byte \<open>header\<close> array of the source is scratch
  space: \<open>Header\<close> writes every byte of it that it then copies to the buffer, so the
  model builds those bytes directly.
\<close>

record lrecord =
  buffer :: string
  bcap :: nat
  month :: int
  week :: int
  day :: int
  hour :: int
  minute :: int

definition digits :: string where "digits = ''0123456789''"

text \<open>\<open>digits[i]\<close>: an index outside the array panics.\<close>

definition digit :: "int \<Rightarrow> char result" where
  "digit i = (if 0 \<le> i \<and> i < 10 then Return (digits ! nat i) else Panic IndexOutOfRange)"

definition bindR :: "'a result \<Rightarrow> ('a \<Rightarrow> 'b result) \<Rightarrow> 'b result" where
  "bindR m f = (case m of Return x \<Rightarrow> f x | Panic p \<Rightarrow> Panic p)"

text \<open>
  \<open>append(s, p...)\<close> on a slice with the bytes \<open>buffer r\<close> and capacity \<open>bcap r\<close>: the
  backing array is kept when the result fits, and otherwise the runtime allocates a
  new one. The capacity it chooses is the runtime's business, so it is the parameter
  \<open>grow\<close> (old capacity, needed length).
\<close>

definition goappend :: "(nat \<Rightarrow> nat \<Rightarrow> nat) \<Rightarrow> lrecord \<Rightarrow> string \<Rightarrow> lrecord" where
  "goappend grow r p =
     r\<lparr>buffer := buffer r @ p,
       bcap := (if length (buffer r) + length p \<le> bcap r then bcap r
                else grow (bcap r) (length (buffer r) + length p))\<rparr>"

text \<open>
  \<open>record.Header\<close>, at the clock reading \<open>t\<close>. Go's \<open>/\<close> and \<open>%\<close> on ints truncate
  towards zero (\<open>sdiv\<close>, \<open>smod\<close>).
\<close>

definition Header :: "(nat \<Rightarrow> nat \<Rightarrow> nat) \<Rightarrow> Level \<Rightarrow> gotime \<Rightarrow> lrecord \<Rightarrow> lrecord result" where
  "Header grow lv t r0 =
     (let yr = tYear t; mn = tMonth t; dy = tDay t;
          hr = tHour t; mi = tMinute t; ss = tSecond t;
          r = r0\<lparr>hour := hr, day := dy, week := tWeekday t, month := mn\<rparr>
      in
      bindR (digit (yr sdiv 1000)) (\<lambda>h0. let yr = yr smod 1000 in
      bindR (digit (yr sdiv 100)) (\<lambda>h1. let yr = yr smod 100 in
      bindR (digit (yr sdiv 10)) (\<lambda>h2. let yr = yr smod 10 in
      bindR (digit yr) (\<lambda>h3.
      bindR (digit (mn sdiv 10)) (\<lambda>h5.
      bindR (digit (mn smod 10)) (\<lambda>h6.
      bindR (digit (dy sdiv 10)) (\<lambda>h8.
      bindR (digit (dy smod 10)) (\<lambda>h9.
      bindR (digit (hr sdiv 10)) (\<lambda>h11.
      bindR (digit (hr smod 10)) (\<lambda>h12.
      bindR (digit (mi sdiv 10)) (\<lambda>h14.
      bindR (digit (mi smod 10)) (\<lambda>h15.
      bindR (digit (ss sdiv 10)) (\<lambda>h17.
      bindR (digit (ss smod 10)) (\<lambda>h18.
      let h = [h0, h1, h2, h3, CHR ''-'', h5, h6, CHR ''-'', h8, h9, CHR '' '',
               h11, h12, CHR '':'', h14, h15, CHR '':'', h17, h18, CHR '' '']
      in
      if lv = LevelDebug then Return (goappend grow r (h @ ''DEBUG ''))
      else if lv = LevelInfo then Return (goappend grow r (h @ ''INFO ''))
      else if lv = LevelWarn then Return (goappend grow r (h @ ''WARN ''))
      else if lv = LevelError then Return (goappend grow r (h @ ''ERROR ''))
      else Return (goappend grow r (h @ ''<nil> '')))))))))))))))))"

section \<open>The record pool (logger.go)\<close>

text \<open>
  The Go type \<open>records\<close>: a \<open>sync.Pool\<close>, modelled by the records it currently holds, the
  capacity \<open>newCap\<close> its \<open>New\<close> function allocates, and the retention threshold.
\<close>

record records =
  pool :: "lrecord list"
  newCap :: int
  threshold :: int

definition createRecords :: "int \<Rightarrow> int \<Rightarrow> records" where
  "createRecords recordBytes recordFactor =
     \<lparr>pool = [], newCap = recordBytes, threshold = wrap64 (recordBytes * recordFactor)\<rparr>"

text \<open>
  The pool's \<open>New\<close>: \<open>make([]byte, 0, recordBytes)\<close> panics on a negative capacity.
  (Memory has no bound in the model: any other allocation succeeds.)
\<close>

definition newRecord :: "records \<Rightarrow> lrecord result" where
  "newRecord rs =
     (if newCap rs < 0 then Panic MakesliceCapOutOfRange
      else Return \<lparr>buffer = [], bcap = nat (newCap rs), month = 0, week = 0, day = 0,
                   hour = 0, minute = 0\<rparr>)"

text \<open>
  \<open>records.Get\<close>. \<open>sync.Pool.Get\<close> hands out any record the pool holds, or ignores the
  pool and calls \<open>New\<close>; which one is the runtime's choice \<open>pick\<close> (the position of the
  pooled record, or \<open>None\<close>). The record's buffer is cut to length zero, its capacity kept.
\<close>

definition Get :: "records \<Rightarrow> nat option \<Rightarrow> (lrecord \<times> records) result" where
  "Get rs pick =
     (case pick of
        Some i \<Rightarrow>
          (if i < length (pool rs)
           then Return ((pool rs ! i)\<lparr>buffer := []\<rparr>,
                        rs\<lparr>pool := take i (pool rs) @ drop (Suc i) (pool rs)\<rparr>)
           else bindR (newRecord rs) (\<lambda>r. Return (r\<lparr>buffer := []\<rparr>, rs)))
      | None \<Rightarrow> bindR (newRecord rs) (\<lambda>r. Return (r\<lparr>buffer := []\<rparr>, rs)))"

definition Put :: "records \<Rightarrow> lrecord \<Rightarrow> records" where
  "Put rs r = (if int (bcap r) < threshold rs then rs\<lparr>pool := r # pool rs\<rparr> else rs)"

section \<open>The operating system\<close>

text \<open>
  What the package sees of the operating system: the regular files by path, the bytes
  written so far to the two standard streams, and the history of \<open>os.Rename\<close> calls.
  The diagnostics that the package prints to \<open>os.Stderr\<close> with \<open>fmt.Fprintf\<close> are kept
  as a list of their own, \<open>diag\<close>. Two fields say where the
  environment fails: the paths \<open>os.OpenFile\<close> refuses, and whether the device rejects
  writes.
\<close>

datatype diagnostic =
    LoggerOpenFileError string error
  | LoggerWriteError error
  | DaemonPanic string
  | DaemonError "error option"

record world =
  files :: "(string \<times> string) list"
  stdout :: string
  stderr :: string
  diag :: "diagnostic list"
  renames :: "(string \<times> string) list"
  noopen :: "string list"
  nospace :: bool

datatype target = Stdout | Stderr | Path string

text \<open>An \<open>*os.File\<close>: what it writes to, and whether \<open>Close\<close> was called on it.\<close>

record osfile =
  target :: target
  fclosed :: bool

definition content :: "world \<Rightarrow> string \<Rightarrow> string" where
  "content w p = (case map_of (files w) p of None \<Rightarrow> [] | Some bs \<Rightarrow> bs)"

text \<open>
  \<open>os.Stat\<close>: \<open>True\<close> when it returns a \<open>FileInfo\<close>. When it returns none, its error
  says that the file does not exist.
\<close>

definition Stat :: "world \<Rightarrow> string \<Rightarrow> bool" where
  "Stat w p = (map_of (files w) p \<noteq> None)"

text \<open>
  \<open>(*os.File).Write\<close>: it fails on a closed file and on a device that rejects the
  write; otherwise all the bytes are appended (every file is opened with \<open>O_APPEND\<close>).
\<close>

definition fileWrite :: "osfile \<Rightarrow> string \<Rightarrow> world \<Rightarrow> error option \<times> world" where
  "fileWrite f p w =
     (if fclosed f then (Some ErrClosed, w)
      else if nospace w then (Some ErrNoSpace, w)
      else (None,
        (case target f of
           Stdout \<Rightarrow> w\<lparr>stdout := stdout w @ p\<rparr>
         | Stderr \<Rightarrow> w\<lparr>stderr := stderr w @ p\<rparr>
         | Path n \<Rightarrow> w\<lparr>files := AList.update n (content w n @ p) (files w)\<rparr>)))"

text \<open>
  \<open>os.OpenFile(path, O_WRONLY|O_CREATE|O_APPEND, 0666)\<close>: the empty path and the paths
  the environment refuses fail; a file that does not exist is created empty.
\<close>

definition OpenFile :: "string \<Rightarrow> world \<Rightarrow> error + (osfile \<times> world)" where
  "OpenFile p w =
     (if p = [] \<or> p \<in> set (noopen w) then Inl (ErrOpen p)
      else Inr (\<lparr>target = Path p, fclosed = False\<rparr>,
                (if Stat w p then w else w\<lparr>files := AList.update p [] (files w)\<rparr>)))"

text \<open>
  \<open>os.Rename\<close>: every call is recorded; a file that exists is moved, replacing the
  target. A failed call moves nothing (the package ignores its error).
\<close>

definition Rename :: "string \<Rightarrow> string \<Rightarrow> world \<Rightarrow> world" where
  "Rename old new w =
     (let w = w\<lparr>renames := renames w @ [(old, new)]\<rparr> in
      case map_of (files w) old of
        None \<Rightarrow> w
      | Some bs \<Rightarrow> w\<lparr>files := AList.update new bs (AList.delete old (files w))\<rparr>)"

text \<open>
  \<open>strings.ToLower\<close>, as far as the comparison with \<open>stdout\<close> and \<open>stderr\<close> needs it:
  the ASCII capitals are mapped to their small letters.
\<close>

definition lower :: "char \<Rightarrow> char" where
  "lower ch =
     (case map_of (zip ''ABCDEFGHIJKLMNOPQRSTUVWXYZ'' ''abcdefghijklmnopqrstuvwxyz'') ch of
        None \<Rightarrow> ch
      | Some l \<Rightarrow> l)"

definition ToLower :: "string \<Rightarrow> string" where
  "ToLower s = map lower s"

definition ToFile :: "string \<Rightarrow> world \<Rightarrow> error + (osfile \<times> world)" where
  "ToFile path w =
     (let l = ToLower path in
      if l = STDOUT then Inr (\<lparr>target = Stdout, fclosed = False\<rparr>, w)
      else if l = STDERR then Inr (\<lparr>target = Stderr, fclosed = False\<rparr>, w)
      else OpenFile path w)"

section \<open>The buffered writer\<close>

text \<open>
  A \<open>*bufio.Writer\<close>: the bytes it holds, the size of its buffer, and its sticky error.
  The file it wraps is always the sink's current \<open>file\<close> (the package sets the two
  together), so the operations take that file as an argument.
\<close>

record bwriter =
  wbuf :: string
  wsize :: nat
  werr :: "error option"

definition NewWriterSize :: "int \<Rightarrow> bwriter" where
  "NewWriterSize sz =
     \<lparr>wbuf = [], wsize = (if sz \<le> 0 then 4096 else nat sz), werr = None\<rparr>"

text \<open>\<open>(*bufio.Writer).Flush\<close>; its error is also kept in \<open>werr\<close>.\<close>

definition bufFlush :: "osfile \<Rightarrow> bwriter \<Rightarrow> world \<Rightarrow> bwriter \<times> world" where
  "bufFlush f b w =
     (if werr b \<noteq> None then (b, w)
      else if wbuf b = [] then (b, w)
      else (case fileWrite f (wbuf b) w of
              (None, w') \<Rightarrow> (b\<lparr>wbuf := []\<rparr>, w')
            | (Some e, w') \<Rightarrow> (b\<lparr>werr := Some e\<rparr>, w')))"

text \<open>
  \<open>(*bufio.Writer).Write\<close>: while the bytes do not fit, a full buffer is flushed, and
  bytes that meet an empty buffer go to the file directly; what is left is copied
  into the buffer.
\<close>

function bufWrite :: "osfile \<Rightarrow> bwriter \<Rightarrow> string \<Rightarrow> world \<Rightarrow> error option \<times> bwriter \<times> world" where
  "bufWrite f b p w =
     (if length p > wsize b - length (wbuf b) \<and> werr b = None then
        (if wbuf b = [] then
           (case fileWrite f p w of
              (None, w') \<Rightarrow> bufWrite f b [] w'
            | (Some e, w') \<Rightarrow> bufWrite f (b\<lparr>werr := Some e\<rparr>) p w')
         else
           (let n = wsize b - length (wbuf b);
                bw = bufFlush f (b\<lparr>wbuf := wbuf b @ take n p\<rparr>) w
            in bufWrite f (fst bw) (drop n p) (snd bw)))
      else if werr b \<noteq> None then (werr b, b, w)
      else (None, b\<lparr>wbuf := wbuf b @ p\<rparr>, w))"
  by pat_completeness auto
termination
  by (relation "measures [\<lambda>(f, b, p, w). if werr b = None then 1 else 0,
                          \<lambda>(f, b, p, w). length p,
                          \<lambda>(f, b, p, w). if wbuf b = [] then 0 else 1]")
     (auto simp: bufFlush_def split: prod.splits option.splits)

declare bufWrite.simps [simp del]

section \<open>The sink (fileLogger)\<close>

text \<open>A buffered channel of records: what it holds, its capacity, whether it is closed.\<close>

record chan =
  items :: "lrecord list"
  capacity :: nat
  chClosed :: bool

text \<open>The method value stored in the field \<open>Write\<close>.\<close>

datatype writePath = WriteUnset | ViaWriteDirect | ViaWriteDiscard

text \<open>
  The Go type \<open>fileLogger\<close>. The field \<open>c\<close> of the source is \<open>conf\<close>, and \<open>rotate\<close> is
  \<open>rotate_on\<close>. The mutex is not a field: each operation below is what runs while
  the mutex is held, in one step.
\<close>

record fileLogger =
  conf :: FileConfig
  level :: Level
  records :: records
  "file" :: osfile
  writer :: bwriter
  discard :: "chan option"
  rotate_on :: bool
  rotateMonth :: int
  rotateWeek :: int
  rotateDay :: int
  rotateHour :: int
  rotateRemain :: int
  rotateSuffix :: string
  Write :: writePath

text \<open>\<open>now.Format(SuffixFormat)\<close>: a dot and the hour, minute and second, two digits each.\<close>

definition two :: "int \<Rightarrow> string" where
  "two n = [digits ! nat (n div 10), digits ! nat (n mod 10)]"

definition formatSuffix :: "gotime \<Rightarrow> string" where
  "formatSuffix t = ''.'' @ two (tHour t) @ two (tMinute t) @ two (tSecond t)"

definition NewFileLogger ::
  "FileConfig option \<Rightarrow> gotime \<Rightarrow> world \<Rightarrow> ((error + fileLogger) \<times> world) result" where
  "NewFileLogger copt now w =
     (case copt of
        None \<Rightarrow> Panic NilPointerDereference
      | Some c0 \<Rightarrow>
          (case ToFile (File c0) w of
             Inl err \<Rightarrow> Return (Inl err, w)
           | Inr (f, w') \<Rightarrow>
               (let c = mergeDefault (Some c0);
                    rot = (target f \<noteq> Stdout \<and> target f \<noteq> Stderr \<and>
                           (RotateBytes c > 0 \<or> RotateCycle c > 0));
                    lgr = \<lparr>conf = c, level = Level c,
                           records = createRecords (RecordLength c) (RecordFactor c),
                           file = f, writer = NewWriterSize (BufferLength c),
                           discard = None, rotate_on = rot,
                           rotateMonth = 0, rotateWeek = 0, rotateDay = 0, rotateHour = 0,
                           rotateRemain = 0, rotateSuffix = [], Write = WriteUnset\<rparr>;
                    lgr = (if rot
                           then lgr\<lparr>rotateMonth := tMonth now, rotateWeek := tWeekday now,
                                    rotateDay := tDay now, rotateHour := tHour now,
                                    rotateSuffix := formatSuffix now,
                                    rotateRemain := RotateBytes c\<rparr>
                           else lgr);
                    lgr = (if DiscardThreshold c \<le> 0 then lgr\<lparr>Write := ViaWriteDirect\<rparr>
                           else lgr\<lparr>discard := Some \<lparr>items = [],
                                                       capacity = nat (DiscardThreshold c),
                                                       chClosed = False\<rparr>,
                                    Write := ViaWriteDiscard\<rparr>)
                in Return (Inr lgr, w'))))"

text \<open>\<open>strconv.Itoa\<close> on a number that is not negative.\<close>

fun Itoa :: "nat \<Rightarrow> string" where
  "Itoa n = (if n < 10 then [digits ! n] else Itoa (n div 10) @ [digits ! (n mod 10)])"

declare Itoa.simps [simp del]

lemma Itoa_bound: "n < 10 ^ length (Itoa n)"
proof (induction n rule: Itoa.induct)
  case (1 n)
  show ?case
  proof (cases "n < 10")
    case True
    then show ?thesis by (subst Itoa.simps) simp
  next
    case False
    then have "n div 10 < 10 ^ length (Itoa (n div 10))" using 1 by simp
    then have "n < 10 * 10 ^ length (Itoa (n div 10))" by arith
    then show ?thesis using False by (subst Itoa.simps) simp
  qed
qed

text \<open>
  The lengths of all file names together: no name that exists is longer. This bounds
  the search for a free name below.
\<close>

definition namelen :: "world \<Rightarrow> nat" where
  "namelen w = sum_list (map (\<lambda>e. length (fst e)) (files w))"

lemma Stat_namelen: "Stat w p \<Longrightarrow> length p \<le> namelen w"
proof -
  assume "Stat w p"
  then obtain bs where "(p, bs) \<in> set (files w)"
    by (auto simp: Stat_def dest: map_of_SomeD)
  then have "length p \<in> set (map (\<lambda>e. length (fst e)) (files w))"
    by force
  then have "length p \<le> sum_list (map (\<lambda>e. length (fst e)) (files w))"
    by (rule member_le_sum_list) simp_all
  then show ?thesis by (simp add: namelen_def)
qed

text \<open>
  The loop of \<open>rotating\<close> that looks for a name no file has: \<open>rotateFile.0\<close>,
  \<open>rotateFile.1\<close>, and so on.
\<close>

function nextFree :: "world \<Rightarrow> string \<Rightarrow> nat \<Rightarrow> string" where
  "nextFree w rotateFile count =
     (let prefixFile = rotateFile @ ''.'' @ Itoa count in
      if Stat w prefixFile then nextFree w rotateFile (Suc count) else prefixFile)"
  by pat_completeness auto
termination
proof (relation "measure (\<lambda>(w, rotateFile, count). 10 ^ namelen w - count)")
  show "wf (measure (\<lambda>(w, rotateFile, count). 10 ^ namelen w - count))" by simp
next
  fix w :: world and rotateFile :: string and count :: nat and x
  assume x: "x = rotateFile @ ''.'' @ Itoa count" and st: "Stat w x"
  have "length (Itoa count) \<le> namelen w"
    using Stat_namelen [OF st] by (simp add: x)
  then have "(10::nat) ^ length (Itoa count) \<le> 10 ^ namelen w"
    by (simp add: power_increasing)
  then have "count < 10 ^ namelen w"
    using Itoa_bound [of count] by linarith
  then show "((w, rotateFile, Suc count), w, rotateFile, count)
      \<in> measure (\<lambda>(w, rotateFile, count). 10 ^ namelen w - count)"
    by simp
qed

declare nextFree.simps [simp del]

text \<open>
  \<open>fileLogger.rotating\<close>, at the clock reading \<open>now\<close>. The errors of \<open>Flush\<close>, \<open>Close\<close>
  and \<open>os.Rename\<close> are ignored, as in the source.
\<close>

definition rotating :: "gotime \<Rightarrow> fileLogger \<Rightarrow> world \<Rightarrow> fileLogger \<times> world" where
  "rotating now lgr w =
     (let rotateFile = File (conf lgr) @ ''.'' @ rotateSuffix lgr;
          rotateFile = (if Stat w rotateFile then nextFree w rotateFile 0 else rotateFile);
          bw = bufFlush (file lgr) (writer lgr) w;
          lgr = lgr\<lparr>writer := fst bw, file := (file lgr)\<lparr>fclosed := True\<rparr>\<rparr>;
          w = Rename (File (conf lgr)) rotateFile (snd bw)
      in case ToFile (File (conf lgr)) w of
           Inl err \<Rightarrow>
             (lgr, w\<lparr>diag := diag w @ [LoggerOpenFileError (File (conf lgr)) err]\<rparr>)
         | Inr (f, w') \<Rightarrow>
             (lgr\<lparr>file := f, writer := NewWriterSize (BufferLength (conf lgr)),
                  rotateMonth := tMonth now, rotateWeek := tWeekday now,
                  rotateDay := tDay now, rotateHour := tHour now,
                  rotateSuffix := formatSuffix now,
                  rotateRemain := RotateBytes (conf lgr)\<rparr>, w'))"

text \<open>The \<open>switch\<close> of \<open>WriteDirect\<close> over the rotation cycle: does this record rotate?\<close>

definition cycleChanged :: "fileLogger \<Rightarrow> lrecord \<Rightarrow> bool" where
  "cycleChanged lgr r =
     (let cy = RotateCycle (conf lgr) in
      if cy = CycleMonthly then month r \<noteq> rotateMonth lgr
      else if cy = CycleWeekly then month r \<noteq> rotateMonth lgr \<or> week r \<noteq> rotateWeek lgr
      else if cy = CycleDaily then
        month r \<noteq> rotateMonth lgr \<or> week r \<noteq> rotateWeek lgr \<or> day r \<noteq> rotateDay lgr
      else if cy = CycleHourly then
        month r \<noteq> rotateMonth lgr \<or> week r \<noteq> rotateWeek lgr \<or> day r \<noteq> rotateDay lgr \<or>
        hour r \<noteq> rotateHour lgr
      else False)"

text \<open>The part of \<open>WriteDirect\<close> before the label \<open>__write__\<close>.\<close>

definition beforeWrite :: "gotime \<Rightarrow> lrecord \<Rightarrow> fileLogger \<Rightarrow> world \<Rightarrow> fileLogger \<times> world" where
  "beforeWrite now r lgr w =
     (if rotate_on lgr then
        (if RotateCycle (conf lgr) > CycleOff \<and> cycleChanged lgr r then rotating now lgr w
         else if RotateBytes (conf lgr) > 0 then
           (let lgr = lgr\<lparr>rotateRemain := wrap64 (rotateRemain lgr - int (length (buffer r)))\<rparr>
            in if rotateRemain lgr < 0 then rotating now lgr w else (lgr, w))
         else (lgr, w))
      else (lgr, w))"

text \<open>
  \<open>fileLogger.WriteDirect\<close>. \<open>now\<close> is the clock reading that \<open>rotating\<close> takes if it
  runs. The deferred \<open>records.Put\<close> runs last.
\<close>

definition WriteDirect :: "gotime \<Rightarrow> lrecord \<Rightarrow> fileLogger \<Rightarrow> world \<Rightarrow> fileLogger \<times> world" where
  "WriteDirect now r lgr w =
     (let lw = beforeWrite now r lgr w;
          lgr = fst lw;
          ebw = bufWrite (file lgr) (writer lgr) (buffer r) (snd lw);
          w = (case fst ebw of
                 None \<Rightarrow> snd (snd ebw)
               | Some err \<Rightarrow> (snd (snd ebw))\<lparr>diag := diag (snd (snd ebw)) @ [LoggerWriteError err]\<rparr>)
      in (lgr\<lparr>writer := fst (snd ebw), records := Put (records lgr) r\<rparr>, w))"

text \<open>
  \<open>fileLogger.WriteDiscard\<close>: a \<open>select\<close> with a send and a \<open>default\<close>. The send is
  taken when the channel has room; a send on a closed channel panics; a nil channel is
  never ready. (A channel of capacity zero, which \<open>NewFileLogger\<close> never makes, could
  also hand the record to a waiting receiver.)
\<close>

definition WriteDiscard :: "lrecord \<Rightarrow> fileLogger \<Rightarrow> fileLogger result" where
  "WriteDiscard r lgr =
     (case discard lgr of
        None \<Rightarrow> Return lgr
      | Some q \<Rightarrow>
          (if chClosed q then Panic SendOnClosedChannel
           else if length (items q) < capacity q
           then Return (lgr\<lparr>discard := Some (q\<lparr>items := items q @ [r]\<rparr>)\<rparr>)
           else Return lgr))"

text \<open>\<open>fileLogger.Flush\<close>; \<open>file.Sync()\<close> changes nothing the model sees.\<close>

definition Flush :: "fileLogger \<Rightarrow> world \<Rightarrow> fileLogger \<times> world" where
  "Flush lgr w = (let bw = bufFlush (file lgr) (writer lgr) w in (lgr\<lparr>writer := fst bw\<rparr>, snd bw))"

text \<open>
  \<open>fileLogger.Close\<close>: closing the discard channel a second time panics; the file is
  closed unless it is a standard stream. (The writer is not flushed.)
\<close>

definition Close :: "fileLogger \<Rightarrow> fileLogger result" where
  "Close lgr =
     bindR
       (case discard lgr of
          None \<Rightarrow> Return lgr
        | Some q \<Rightarrow>
            (if chClosed q then Panic CloseOfClosedChannel
             else Return (lgr\<lparr>discard := Some (q\<lparr>chClosed := True\<rparr>)\<rparr>)))
       (\<lambda>lgr. Return (if target (file lgr) \<noteq> Stdout \<and> target (file lgr) \<noteq> Stderr
                      then lgr\<lparr>file := (file lgr)\<lparr>fclosed := True\<rparr>\<rparr> else lgr))"

section \<open>The logging methods\<close>

definition skipBase :: nat where "skipBase = 2"

definition newline :: char where "newline = CHR 0x0A"

text \<open>
  \<open>record.Location\<close>. \<open>caller\<close> is what \<open>runtime.Caller(skip)\<close> returns: the file and
  the line, or \<open>None\<close> when it reports failure.
\<close>

definition Location :: "(nat \<Rightarrow> nat \<Rightarrow> nat) \<Rightarrow> (string \<times> nat) option \<Rightarrow> lrecord \<Rightarrow> lrecord" where
  "Location grow caller r =
     (let fl = (case caller of None \<Rightarrow> (''???'', 1) | Some found \<Rightarrow> found);
          r = goappend grow r (fst fl);
          r = goappend grow r '':'';
          r = goappend grow r (Itoa (snd fl));
          r = goappend grow r '' - ''
      in r)"

text \<open>
  \<open>record.Printf\<close>. \<open>rendered\<close> is the text that \<open>fmt.Appendf\<close> makes of the format
  and the arguments.
\<close>

definition Printf :: "(nat \<Rightarrow> nat \<Rightarrow> nat) \<Rightarrow> string \<Rightarrow> lrecord \<Rightarrow> lrecord" where
  "Printf grow rendered r = goappend grow (goappend grow r rendered) [newline]"

text \<open>\<open>strings.Index(s, sub) != -1\<close>.\<close>

fun hasPrefix :: "string \<Rightarrow> string \<Rightarrow> bool" where
  "hasPrefix s [] = True"
| "hasPrefix [] (y # ys) = False"
| "hasPrefix (x # xs) (y # ys) = (x = y \<and> hasPrefix xs ys)"

fun contains :: "string \<Rightarrow> string \<Rightarrow> bool" where
  "contains [] sub = (sub = [])"
| "contains (x # xs) sub = (hasPrefix (x # xs) sub \<or> contains xs sub)"

text \<open>
  \<open>record.PrintStack\<close>. \<open>frames\<close> are the results of \<open>runtime.Caller(1)\<close>,
  \<open>runtime.Caller(2)\<close>, and so on, up to the first that reports failure.
\<close>

fun PrintStack :: "(nat \<Rightarrow> nat \<Rightarrow> nat) \<Rightarrow> nat \<Rightarrow> (string \<times> nat) list \<Rightarrow> lrecord \<Rightarrow> lrecord" where
  "PrintStack grow skip [] r = r"
| "PrintStack grow skip ((fname, line) # frames) r =
     (if contains fname ''/src/runtime/'' then PrintStack grow skip frames r
      else if skip > 0 then PrintStack grow (skip - 1) frames r
      else
        (let r = goappend grow r fname;
             r = goappend grow r '':'';
             r = goappend grow r (Itoa line);
             r = goappend grow r ''|''
         in PrintStack grow skip frames r))"

text \<open>
  What a logging call takes from its surroundings: the pool's choice, the clock that
  \<open>Header\<close> reads, the result of \<open>runtime.Caller(skipBase)\<close>, the text rendered from the
  format and the arguments, the frames of the stack, and the clock that a rollover
  during the write would read.
\<close>

record call =
  cPick :: "nat option"
  cClock :: gotime
  cCaller :: "(string \<times> nat) option"
  cRendered :: string
  cFrames :: "(string \<times> nat) list"
  cLater :: gotime

text \<open>The call \<open>lgr.Write(r)\<close> of the method value stored at construction.\<close>

definition callWrite :: "gotime \<Rightarrow> lrecord \<Rightarrow> fileLogger \<Rightarrow> world \<Rightarrow> (fileLogger \<times> world) result" where
  "callWrite now r lgr w =
     (case Write lgr of
        WriteUnset \<Rightarrow> Panic NilPointerDereference
      | ViaWriteDirect \<Rightarrow> Return (WriteDirect now r lgr w)
      | ViaWriteDiscard \<Rightarrow> bindR (WriteDiscard r lgr) (\<lambda>lgr. Return (lgr, w)))"

definition Debug ::
  "(nat \<Rightarrow> nat \<Rightarrow> nat) \<Rightarrow> call \<Rightarrow> fileLogger \<Rightarrow> world \<Rightarrow> (fileLogger \<times> world) result" where
  "Debug grow cl lgr w =
     (if level lgr \<le> LevelDebug then
        bindR (Get (records lgr) (cPick cl)) (\<lambda>(r, rs).
        bindR (Header grow LevelDebug (cClock cl) r) (\<lambda>r.
          let r = Location grow (cCaller cl) r;
              r = Printf grow (cRendered cl) r
          in callWrite (cLater cl) r (lgr\<lparr>records := rs\<rparr>) w))
      else Return (lgr, w))"

definition Info ::
  "(nat \<Rightarrow> nat \<Rightarrow> nat) \<Rightarrow> call \<Rightarrow> fileLogger \<Rightarrow> world \<Rightarrow> (fileLogger \<times> world) result" where
  "Info grow cl lgr w =
     (if level lgr \<le> LevelInfo then
        bindR (Get (records lgr) (cPick cl)) (\<lambda>(r, rs).
        bindR (Header grow LevelInfo (cClock cl) r) (\<lambda>r.
          let r = Location grow (cCaller cl) r;
              r = Printf grow (cRendered cl) r
          in callWrite (cLater cl) r (lgr\<lparr>records := rs\<rparr>) w))
      else Return (lgr, w))"

definition Warn ::
  "(nat \<Rightarrow> nat \<Rightarrow> nat) \<Rightarrow> call \<Rightarrow> fileLogger \<Rightarrow> world \<Rightarrow> (fileLogger \<times> world) result" where
  "Warn grow cl lgr w =
     (if level lgr \<le> LevelWarn then
        bindR (Get (records lgr) (cPick cl)) (\<lambda>(r, rs).
        bindR (Header grow LevelWarn (cClock cl) r) (\<lambda>r.
          let r = Location grow (cCaller cl) r;
              r = Printf grow (cRendered cl) r
          in callWrite (cLater cl) r (lgr\<lparr>records := rs\<rparr>) w))
      else Return (lgr, w))"

definition Error ::
  "(nat \<Rightarrow> nat \<Rightarrow> nat) \<Rightarrow> call \<Rightarrow> fileLogger \<Rightarrow> world \<Rightarrow> (fileLogger \<times> world) result" where
  "Error grow cl lgr w =
     (if level lgr \<le> LevelError then
        bindR (Get (records lgr) (cPick cl)) (\<lambda>(r, rs).
        bindR (Header grow LevelError (cClock cl) r) (\<lambda>r.
          let r = Location grow (cCaller cl) r;
              r = Printf grow (cRendered cl) r
          in callWrite (cLater cl) r (lgr\<lparr>records := rs\<rparr>) w))
      else Return (lgr, w))"

definition ErrorStack ::
  "(nat \<Rightarrow> nat \<Rightarrow> nat) \<Rightarrow> call \<Rightarrow> fileLogger \<Rightarrow> world \<Rightarrow> (fileLogger \<times> world) result" where
  "ErrorStack grow cl lgr w =
     (if level lgr \<le> LevelError then
        bindR (Get (records lgr) (cPick cl)) (\<lambda>(r, rs).
        bindR (Header grow LevelError (cClock cl) r) (\<lambda>r.
          let r = Location grow (cCaller cl) r;
              r = Printf grow (cRendered cl) r;
              r = PrintStack grow skipBase (cFrames cl) r
          in callWrite (cLater cl) r (lgr\<lparr>records := rs\<rparr>) w))
      else Return (lgr, w))"

section \<open>The daemon\<close>

text \<open>
  What one turn of the daemon's \<open>select\<close> meets: a receive from the discard channel
  (with the clock reading a rollover would take), a tick of the timer, or a panic with
  the given value raised while the turn runs. The sequence of these is the schedule.
\<close>

datatype event = Receive gotime | Tick | Fault string

text \<open>
  \<open>fileLogger.protectDaemon\<close> on a schedule. It returns \<open>Some\<close> of its error result and
  the rest of the schedule when it returns, and \<open>None\<close> when the schedule ends with the
  loop still running. A receive from a closed channel yields the records left in it
  first; a receive that is not ready (empty open channel, nil channel) does not happen,
  so such an event is skipped. A recovered panic prints and makes the function return
  its zero result, the nil error.
\<close>

fun protectDaemon ::
  "event list \<Rightarrow> fileLogger \<Rightarrow> world \<Rightarrow> (error option) option \<times> event list \<times> fileLogger \<times> world" where
  "protectDaemon [] lgr w = (None, [], lgr, w)"
| "protectDaemon (Receive now # es) lgr w =
     (case discard lgr of
        None \<Rightarrow> protectDaemon es lgr w
      | Some q \<Rightarrow>
          (case items q of
             [] \<Rightarrow> if chClosed q then (Some (Some ErrProcessDone), es, lgr, w)
                   else protectDaemon es lgr w
           | rc # rest \<Rightarrow>
               (let lw = WriteDirect now rc (lgr\<lparr>discard := Some (q\<lparr>items := rest\<rparr>)\<rparr>) w
                in protectDaemon es (fst lw) (snd lw))))"
| "protectDaemon (Tick # es) lgr w =
     (let lw = Flush lgr w in protectDaemon es (fst lw) (snd lw))"
| "protectDaemon (Fault prr # es) lgr w =
     (Some None, es, lgr, w\<lparr>diag := diag w @ [DaemonPanic prr]\<rparr>)"

lemma protectDaemon_consumes:
  "protectDaemon es lgr w = (Some e, es', lgr', w') \<Longrightarrow> length es' < length es"
proof (induction es arbitrary: lgr w)
  case Nil
  then show ?case by simp
next
  case (Cons ev es)
  have step: "\<And>l v. protectDaemon es l v = (Some e, es', lgr', w') \<Longrightarrow> length es' < Suc (length es)"
    using Cons.IH by fastforce
  show ?case
  proof (cases ev)
    case (Receive now)
    then show ?thesis
      using Cons.prems step
      by (auto split: option.splits list.splits if_splits simp: Let_def)
  next
    case Tick
    then show ?thesis using Cons.prems step by (auto simp: Let_def)
  next
    case (Fault prr)
    then show ?thesis using Cons.prems by auto
  qed
qed

text \<open>
  \<open>fileLogger.daemon\<close> on a schedule: \<open>True\<close> when the daemon has returned, \<open>False\<close>
  when the schedule ends with the daemon still running.
\<close>

function daemon :: "event list \<Rightarrow> fileLogger \<Rightarrow> world \<Rightarrow> bool \<times> fileLogger \<times> world" where
  "daemon es lgr w =
     (case protectDaemon es lgr w of
        (None, es', lgr', w') \<Rightarrow> (False, lgr', w')
      | (Some err, es', lgr', w') \<Rightarrow>
          (if err = Some ErrProcessDone then (True, lgr', w')
           else daemon es' lgr' (w'\<lparr>diag := diag w' @ [DaemonError err]\<rparr>)))"
  by pat_completeness auto
termination
proof (relation "measure (\<lambda>(es, lgr, w). length es)")
  show "wf (measure (\<lambda>(es, lgr, w). length es))" by simp
next
  fix es :: "event list" and lgr :: fileLogger and w :: world
    and x and y and x2 and xa and ya and xb and yb
  assume "(x, y) = protectDaemon es lgr w" "x = Some x2" "(xa, ya) = y" "(xb, yb) = ya"
    "x2 \<noteq> Some ErrProcessDone"
  then have "protectDaemon es lgr w = (Some x2, xa, xb, yb)" by simp
  from protectDaemon_consumes [OF this]
  show "((xa, xb, yb\<lparr>diag := diag yb @ [DaemonError x2]\<rparr>), es, lgr, w)
      \<in> measure (\<lambda>(es, lgr, w). length es)"
    by simp
qed

declare daemon.simps [simp del]

section \<open>Sequences of calls, and the header in decimal notation\<close>

text \<open>A client of the pool: any sequence of \<open>Get\<close> and \<open>Put\<close> calls.\<close>

datatype poolop = OpGet "nat option" | OpPut lrecord

fun runPool :: "poolop list \<Rightarrow> records \<Rightarrow> records" where
  "runPool [] rs = rs"
| "runPool (OpGet pick # ops) rs =
     (case Get rs pick of Return (r, rs') \<Rightarrow> runPool ops rs' | Panic p \<Rightarrow> runPool ops rs)"
| "runPool (OpPut r # ops) rs = runPool ops (Put rs r)"

text \<open>A producer on the direct path: \<open>WriteDirect\<close> calls in a row, each with its clock reading.\<close>

fun writeAll :: "(gotime \<times> lrecord) list \<Rightarrow> fileLogger \<Rightarrow> world \<Rightarrow> fileLogger \<times> world" where
  "writeAll [] lgr w = (lgr, w)"
| "writeAll ((now, r) # rest) lgr w =
     (let lw = WriteDirect now r lgr w in writeAll rest (fst lw) (snd lw))"

text \<open>
  The time stamp \<open>YYYY-MM-DD HH:MM:SS\<close> and a space, written with the decimal digits
  of the clock's fields: what the header is compared with.
\<close>

definition four :: "int \<Rightarrow> string" where
  "four n = [digits ! nat (n div 1000 mod 10), digits ! nat (n div 100 mod 10),
             digits ! nat (n div 10 mod 10), digits ! nat (n mod 10)]"

definition timestamp :: "gotime \<Rightarrow> string" where
  "timestamp t =
     four (tYear t) @ ''-'' @ two (tMonth t) @ ''-'' @ two (tDay t) @ '' '' @
     two (tHour t) @ '':'' @ two (tMinute t) @ '':'' @ two (tSecond t) @ '' ''"

text \<open>
  The entry that a logging call writes, up to the end of the message: the time stamp,
  the tag, the location and the rendered text with its line end.
\<close>

definition entryText :: "string \<Rightarrow> call \<Rightarrow> string" where
  "entryText tag cl =
     timestamp (cClock cl) @ tag @
     (case cCaller cl of None \<Rightarrow> ''???:1 - ''
      | Some (fname, line) \<Rightarrow> fname @ '':'' @ Itoa line @ '' - '') @
     cRendered cl @ [newline]"

section \<open>Concrete inputs\<close>

definition ex_time :: gotime where
  "ex_time = \<lparr>tYear = 2024, tMonth = 3, tDay = 9, tHour = 10, tMinute = 15, tSecond = 0,
              tWeekday = 6\<rparr>"

definition ex_world :: world where
  "ex_world = \<lparr>files = [], stdout = [], stderr = [], diag = [], renames = [], noopen = [],
               nospace = False\<rparr>"

text \<open>A record as the pool's \<open>New\<close> makes it, and a formatted record of 30 bytes.\<close>

definition ex_fresh :: lrecord where
  "ex_fresh = \<lparr>buffer = [], bcap = 2048, month = 0, week = 0, day = 0, hour = 0, minute = 0\<rparr>"

definition ex_record :: "char \<Rightarrow> lrecord" where
  "ex_record ch = \<lparr>buffer = replicate 30 ch, bcap = 2048, month = 3, week = 6, day = 9,
                    hour = 10, minute = 0\<rparr>"

text \<open>A logging call at \<open>ex_time\<close>, from line 42 of \<open>main.go\<close>, with the message \<open>hello\<close>.\<close>

definition ex_call :: call where
  "ex_call = \<lparr>cPick = None, cClock = ex_time, cCaller = Some (''main.go'', 42),
              cRendered = ''hello'', cFrames = [], cLater = ex_time\<rparr>"

text \<open>A record whose buffer has grown to ten times the default size.\<close>

definition ex_big :: lrecord where
  "ex_big = \<lparr>buffer = replicate 30 CHR ''x'', bcap = 20480, month = 3, week = 6, day = 9,
             hour = 10, minute = 0\<rparr>"

text \<open>A sink on standard output with a discard queue of capacity 2, as \<open>NewFileLogger\<close> builds it.\<close>

definition ex_discard_config :: FileConfig where
  "ex_discard_config = newFileConfig\<lparr>File := ''stdout'', DiscardThreshold := 2\<rparr>"

definition ex_discard_sink :: "lrecord list \<Rightarrow> fileLogger" where
  "ex_discard_sink queued =
     \<lparr>conf = mergeDefault (Some ex_discard_config), level = 0,
      records = createRecords 2048 10,
      file = \<lparr>target = Stdout, fclosed = False\<rparr>, writer = NewWriterSize 262144,
      discard = Some \<lparr>items = queued, capacity = 2, chClosed = False\<rparr>, rotate_on = False,
      rotateMonth = 0, rotateWeek = 0, rotateDay = 0, rotateHour = 0, rotateRemain = 0,
      rotateSuffix = [], Write = ViaWriteDiscard\<rparr>"

text \<open>
  Sinks on the file \<open>app.log\<close>: \<open>ex_sink c\<close> is what \<open>NewFileLogger\<close> builds at \<open>ex_time\<close> from a
  configuration \<open>c\<close> with rotation, and \<open>ex_opened\<close> is the world after it.
\<close>

definition ex_daily_config :: FileConfig where
  "ex_daily_config = newFileConfig\<lparr>File := ''app.log'', RotateCycle := CycleDaily\<rparr>"

definition ex_sink :: "FileConfig \<Rightarrow> fileLogger" where
  "ex_sink c =
     \<lparr>conf = mergeDefault (Some c), level = Level c, records = createRecords 2048 10,
      file = \<lparr>target = Path (File c), fclosed = False\<rparr>,
      writer = NewWriterSize (BufferLength (mergeDefault (Some c))),
      discard = None, rotate_on = (0 < RotateBytes c \<or> 0 < RotateCycle c),
      rotateMonth = 3, rotateWeek = 6, rotateDay = 9, rotateHour = 10,
      rotateRemain = RotateBytes c, rotateSuffix = ''.101500'', Write = ViaWriteDirect\<rparr>"

definition ex_small_config :: FileConfig where
  "ex_small_config = newFileConfig\<lparr>File := ''app.log'', RotateBytes := 100, BufferLength := 16\<rparr>"

definition ex_opened :: world where
  "ex_opened = ex_world\<lparr>files := [(''app.log'', [])]\<rparr>"

text \<open>A later clock reading, on the next day.\<close>

definition ex_late :: gotime where
  "ex_late = \<lparr>tYear = 2024, tMonth = 3, tDay = 10, tHour = 0, tMinute = 0, tSecond = 7,
              tWeekday = 0\<rparr>"

text \<open>
  The scenario of a queue drained late: a sink on \<open>app.log\<close> with hourly rotation, records
  of 30 bytes whose stored fields are those of 11 o'clock on the day of \<open>ex_time\<close>, and two
  clock readings for the moment they are written, one second before and one second after
  12 o'clock.
\<close>

definition ex_hourly_config :: FileConfig where
  "ex_hourly_config = newFileConfig\<lparr>File := ''app.log'', RotateCycle := CycleHourly\<rparr>"

definition ex_queued :: "char \<Rightarrow> lrecord" where
  "ex_queued ch = \<lparr>buffer = replicate 30 ch, bcap = 2048, month = 3, week = 6, day = 9,
                    hour = 11, minute = 0\<rparr>"

definition ex_before :: gotime where
  "ex_before = \<lparr>tYear = 2024, tMonth = 3, tDay = 9, tHour = 11, tMinute = 59, tSecond = 59,
                tWeekday = 6\<rparr>"

definition ex_after :: gotime where
  "ex_after = \<lparr>tYear = 2024, tMonth = 3, tDay = 9, tHour = 12, tMinute = 0, tSecond = 1,
               tWeekday = 6\<rparr>"

text \<open>
  The scenario of size rotation: a sink on \<open>app.log\<close> with \<open>RotateBytes = 100\<close>.
  \<open>ex_state\<close> is that sink with a given snapshot time, remaining budget, buffered
  bytes and pooled records; \<open>ex_run\<close> is the world after five records of 30 bytes and a
  flush.
\<close>

definition ex_rotate_config :: FileConfig where
  "ex_rotate_config = newFileConfig\<lparr>File := ''app.log'', RotateBytes := 100\<rparr>"

definition ex_state :: "gotime \<Rightarrow> int \<Rightarrow> string \<Rightarrow> lrecord list \<Rightarrow> fileLogger" where
  "ex_state t remain buffered pooled =
     (ex_sink ex_rotate_config)
       \<lparr>rotateMonth := tMonth t, rotateWeek := tWeekday t, rotateDay := tDay t,
        rotateHour := tHour t, rotateSuffix := formatSuffix t, rotateRemain := remain,
        writer := \<lparr>wbuf = buffered, wsize = 262144, werr = None\<rparr>,
        records := (createRecords 2048 10)\<lparr>pool := pooled\<rparr>\<rparr>"

definition ex_run :: world where
  "ex_run =
     (let lw = writeAll [(ex_time, ex_record CHR ''a''), (ex_time, ex_record CHR ''b''),
                         (ex_time, ex_record CHR ''c''), (ex_late, ex_record CHR ''d''),
                         (ex_late, ex_record CHR ''e'')]
                 (ex_state ex_time 100 [] []) ex_opened
      in snd (Flush (fst lw) (snd lw)))"

section \<open>The formatter: the header\<close>

lemma sdiv_nonneg: "0 \<le> k \<Longrightarrow> 0 < l \<Longrightarrow> k sdiv l = k div (l::int)"
  by (cases "k = 0") (simp_all add: signed_divide_int_def)

lemma smod_nonneg: "0 \<le> k \<Longrightarrow> 0 < l \<Longrightarrow> k smod l = k mod (l::int)"
  by (cases "k = 0") (simp_all add: signed_modulo_int_def)

lemma digit_ok: "0 \<le> i \<Longrightarrow> i < 10 \<Longrightarrow> digit i = Return (digits ! nat i)"
  by (simp add: digit_def)

lemma digit_two:
  assumes "0 \<le> n" "n < 100"
  shows "digit (n sdiv 10) = Return (two n ! 0)" "digit (n smod 10) = Return (two n ! 1)"
proof -
  have a: "0 \<le> n div 10" "n div 10 < 10"
    using assms by linarith+
  have b: "0 \<le> n mod 10" "n mod 10 < 10"
    by simp_all
  have c: "n sdiv 10 = n div 10" "n smod 10 = n mod 10"
    using assms(1) by (simp_all add: sdiv_nonneg smod_nonneg)
  show "digit (n sdiv 10) = Return (two n ! 0)"
    unfolding c using digit_ok [OF a] by (simp add: two_def)
  show "digit (n smod 10) = Return (two n ! 1)"
    unfolding c using digit_ok [OF b] by (simp add: two_def)
qed

lemma mod1000_div100: "((y::int) mod 1000) div 100 = y div 100 mod 10"
proof -
  have "y mod (100 * 10) = 100 * (y div 100 mod 10) + y mod 100"
    by (rule zmod_zmult2_eq) simp
  then have "(y mod 1000) div 100 = (100 * (y div 100 mod 10) + y mod 100) div 100" by simp
  also have "\<dots> = y div 100 mod 10" by simp
  finally show ?thesis .
qed

lemma mod100_div10: "((y::int) mod 100) div 10 = y div 10 mod 10"
proof -
  have "y mod (10 * 10) = 10 * (y div 10 mod 10) + y mod 10"
    by (rule zmod_zmult2_eq) simp
  then have "(y mod 100) div 10 = (10 * (y div 10 mod 10) + y mod 10) div 10" by simp
  also have "\<dots> = y div 10 mod 10" by simp
  finally show ?thesis .
qed

lemma digit_four:
  assumes "0 \<le> y" "y < 10000"
  shows "digit (y sdiv 1000) = Return (four y ! 0)"
    "digit ((y smod 1000) sdiv 100) = Return (four y ! 1)"
    "digit (((y smod 1000) smod 100) sdiv 10) = Return (four y ! 2)"
    "digit (((y smod 1000) smod 100) smod 10) = Return (four y ! 3)"
proof -
  have m1: "y smod 1000 = y mod 1000"
    using assms(1) by (simp add: smod_nonneg)
  have m2: "(y mod 1000) smod 100 = y mod 100"
    by (simp add: smod_nonneg mod_mod_cancel)
  have m3: "(y mod 100) smod 10 = y mod 10"
    by (simp add: smod_nonneg mod_mod_cancel)
  have d1: "y sdiv 1000 = y div 1000"
    using assms(1) by (simp add: sdiv_nonneg)
  have d2: "(y mod 1000) sdiv 100 = y div 100 mod 10"
  proof -
    have "(y mod 1000) sdiv 100 = (y mod 1000) div 100" by (simp add: sdiv_nonneg)
    also have "\<dots> = y div 100 mod 10" by (rule mod1000_div100)
    finally show ?thesis .
  qed
  have d3: "(y mod 100) sdiv 10 = y div 10 mod 10"
  proof -
    have "(y mod 100) sdiv 10 = (y mod 100) div 10" by (simp add: sdiv_nonneg)
    also have "\<dots> = y div 10 mod 10" by (rule mod100_div10)
    finally show ?thesis .
  qed
  have b: "0 \<le> y div 1000" "y div 1000 < 10"
    using assms by linarith+
  have b1: "y div 1000 mod 10 = y div 1000" using b by simp
  have "0 \<le> y div 100 mod 10" "y div 100 mod 10 < 10" by simp_all
  note e2 = digit_ok [OF this]
  have "0 \<le> y div 10 mod 10" "y div 10 mod 10 < 10" by simp_all
  note e3 = digit_ok [OF this]
  have "0 \<le> y mod 10" "y mod 10 < 10" by simp_all
  note e4 = digit_ok [OF this]
  show "digit (y sdiv 1000) = Return (four y ! 0)"
    unfolding d1 using digit_ok [OF b] by (simp add: four_def b1)
  show "digit ((y smod 1000) sdiv 100) = Return (four y ! 1)"
    unfolding m1 d2 using e2 by (simp add: four_def)
  show "digit (((y smod 1000) smod 100) sdiv 10) = Return (four y ! 2)"
    unfolding m1 m2 d3 using e3 by (simp add: four_def)
  show "digit (((y smod 1000) smod 100) smod 10) = Return (four y ! 3)"
    unfolding m1 m2 m3 using e4 by (simp add: four_def)
qed

lemma timestamp_nth:
  "timestamp t =
      [four (tYear t) ! 0, four (tYear t) ! 1, four (tYear t) ! 2, four (tYear t) ! 3, CHR ''-'',
       two (tMonth t) ! 0, two (tMonth t) ! 1, CHR ''-'', two (tDay t) ! 0, two (tDay t) ! 1,
       CHR '' '', two (tHour t) ! 0, two (tHour t) ! 1, CHR '':'', two (tMinute t) ! 0,
       two (tMinute t) ! 1, CHR '':'', two (tSecond t) ! 0, two (tSecond t) ! 1, CHR '' '']"
  by (simp add: timestamp_def four_def two_def)

lemma timestamp_length: "length (timestamp t) = 20"
  by (simp add: timestamp_nth)

lemma Header_unfolded:
  assumes "valid_time t"
  shows "Header grow lv t r =
     (let r' = r\<lparr>hour := tHour t, day := tDay t, week := tWeekday t, month := tMonth t\<rparr>;
          h = timestamp t
      in if lv = LevelDebug then Return (goappend grow r' (h @ ''DEBUG ''))
      else if lv = LevelInfo then Return (goappend grow r' (h @ ''INFO ''))
      else if lv = LevelWarn then Return (goappend grow r' (h @ ''WARN ''))
      else if lv = LevelError then Return (goappend grow r' (h @ ''ERROR ''))
      else Return (goappend grow r' (h @ ''<nil> '')))"
proof -
  have y: "0 \<le> tYear t" "tYear t < 10000" and mo: "0 \<le> tMonth t" "tMonth t < 100"
    and d: "0 \<le> tDay t" "tDay t < 100" and h: "0 \<le> tHour t" "tHour t < 100"
    and mi: "0 \<le> tMinute t" "tMinute t < 100" and s: "0 \<le> tSecond t" "tSecond t < 100"
    using assms by (auto simp: valid_time_def)
  show ?thesis
    unfolding Header_def Let_def
    by (simp only: digit_four [OF y] digit_two [OF mo] digit_two [OF d] digit_two [OF h]
        digit_two [OF mi] digit_two [OF s] bindR_def result.case timestamp_nth)
qed

lemma valid_ex_time: "valid_time ex_time"
  by (simp add: valid_time_def ex_time_def)

lemma timestamp_ex_time: "timestamp ex_time = ''2024-03-09 10:15:00 ''"
  by (simp add: timestamp_def four_def two_def ex_time_def digits_def)

lemma levels_distinct:
  "LevelDebug \<noteq> LevelInfo" "LevelDebug \<noteq> LevelWarn" "LevelDebug \<noteq> LevelError"
  "LevelInfo \<noteq> LevelDebug" "LevelInfo \<noteq> LevelWarn" "LevelInfo \<noteq> LevelError"
  "LevelWarn \<noteq> LevelDebug" "LevelWarn \<noteq> LevelInfo" "LevelWarn \<noteq> LevelError"
  "LevelError \<noteq> LevelDebug" "LevelError \<noteq> LevelInfo" "LevelError \<noteq> LevelWarn"
  "LevelOff \<noteq> LevelDebug" "LevelOff \<noteq> LevelInfo" "LevelOff \<noteq> LevelWarn"
  "LevelOff \<noteq> LevelError"
  by (simp_all add: LevelDebug_def LevelInfo_def LevelWarn_def LevelError_def LevelOff_def)

lemma goappend_buffer: "buffer (goappend grow r p) = buffer r @ p"
  by (simp add: goappend_def)

lemma Location_buffer:
  "buffer (Location grow caller r) =
     buffer r @ (case caller of None \<Rightarrow> ''???:1 - ''
                 | Some (fname, line) \<Rightarrow> fname @ '':'' @ Itoa line @ '' - '')"
proof -
  have one: "Itoa (Suc 0) = ''1''"
    by (subst Itoa.simps) (simp add: digits_def)
  show ?thesis
    by (cases caller) (auto simp: Location_def Let_def goappend_buffer one)
qed

lemma Printf_buffer: "buffer (Printf grow rendered r) = buffer r @ rendered @ [newline]"
  by (simp add: Printf_def goappend_buffer)

lemma PrintStack_buffer: "\<exists>stack. buffer (PrintStack grow skip frames r) = buffer r @ stack"
proof (induction grow skip frames r rule: PrintStack.induct)
  case (1 grow skip r)
  then show ?case by simp
next
  case (2 grow skip fname line frames r)
  show ?case
  proof (cases "contains fname ''/src/runtime/''")
    case True
    then show ?thesis using 2(1) by simp
  next
    case False
    show ?thesis
    proof (cases "skip > 0")
      case True
      then show ?thesis using False 2(2) by simp
    next
      case z: False
      let ?r = "goappend grow (goappend grow (goappend grow (goappend grow r fname) '':'')
                  (Itoa line)) ''|''"
      obtain stack where "buffer (PrintStack grow skip frames ?r) = buffer ?r @ stack"
        using 2(3) [OF False z refl refl refl refl] by blast
      then show ?thesis using False z by (simp add: Let_def goappend_buffer)
    qed
  qed
qed


lemma Get_empty: "Get rs pick = Return (r, rs') \<Longrightarrow> buffer r = []"
  by (auto simp: Get_def bindR_def newRecord_def split: option.splits if_splits)

lemma Header_tagged:
  assumes "valid_time t" "buffer r = []"
  shows "\<exists>r'. Header grow lv t r = Return r' \<and>
           buffer r' = timestamp t @
             (if lv = LevelDebug then ''DEBUG '' else if lv = LevelInfo then ''INFO ''
              else if lv = LevelWarn then ''WARN '' else if lv = LevelError then ''ERROR ''
              else ''<nil> '')"
  unfolding Header_unfolded [OF assms(1)] Let_def
  using assms(2) by (simp add: goappend_def)

text \<open>
  C4, as the source has it. Each of the five logging methods, when the sink's level
  lets it through and the clock is in the ranges of the time package, takes a record
  from the pool and hands to the write path a record whose buffer begins with the
  20-byte time stamp \<open>YYYY-MM-DD HH:MM:SS\<close> and a space, then the level's tag and one
  space, with no padding: \<open>DEBUG\<close> and \<open>ERROR\<close> make a header of 26 bytes, \<open>INFO\<close> and
  \<open>WARN\<close> one of 25. The location and the message follow (and the stack, for
  \<open>ErrorStack\<close>). The methods use these four tags only: there is no \<open>FATAL\<close>, and \<open>Header\<close>
  renders every other level, \<open>LevelOff\<close> among them, as \<open><nil>\<close>.
\<close>

theorem logged_entry_header:
  assumes "valid_time (cClock cl)" and "Get (records lgr) (cPick cl) = Return (r, rs)"
  shows "(level lgr \<le> LevelDebug \<longrightarrow>
            (\<exists>r'. Debug grow cl lgr w = callWrite (cLater cl) r' (lgr\<lparr>records := rs\<rparr>) w \<and>
                  buffer r' = entryText ''DEBUG '' cl)) \<and>
         (level lgr \<le> LevelInfo \<longrightarrow>
            (\<exists>r'. Info grow cl lgr w = callWrite (cLater cl) r' (lgr\<lparr>records := rs\<rparr>) w \<and>
                  buffer r' = entryText ''INFO '' cl)) \<and>
         (level lgr \<le> LevelWarn \<longrightarrow>
            (\<exists>r'. Warn grow cl lgr w = callWrite (cLater cl) r' (lgr\<lparr>records := rs\<rparr>) w \<and>
                  buffer r' = entryText ''WARN '' cl)) \<and>
         (level lgr \<le> LevelError \<longrightarrow>
            (\<exists>r'. Error grow cl lgr w = callWrite (cLater cl) r' (lgr\<lparr>records := rs\<rparr>) w \<and>
                  buffer r' = entryText ''ERROR '' cl)) \<and>
         (level lgr \<le> LevelError \<longrightarrow>
            (\<exists>r' stack. ErrorStack grow cl lgr w =
                    callWrite (cLater cl) r' (lgr\<lparr>records := rs\<rparr>) w \<and>
                  buffer r' = entryText ''ERROR '' cl @ stack)) \<and>
         (\<exists>r'. Header grow lv (cClock cl) r = Return r' \<and>
               buffer r' = timestamp (cClock cl) @
                 (if lv = LevelDebug then ''DEBUG '' else if lv = LevelInfo then ''INFO ''
                  else if lv = LevelWarn then ''WARN '' else if lv = LevelError then ''ERROR ''
                  else ''<nil> '')) \<and>
         length (timestamp (cClock cl)) = 20"
proof -
  have e: "buffer r = []" using Get_empty [OF assms(2)] .
  have h: "\<exists>r'. Header grow lv (cClock cl) r = Return r' \<and>
           buffer r' = timestamp (cClock cl) @
             (if lv = LevelDebug then ''DEBUG '' else if lv = LevelInfo then ''INFO ''
              else if lv = LevelWarn then ''WARN '' else if lv = LevelError then ''ERROR ''
              else ''<nil> '')" for lv
    using Header_tagged [OF assms(1) e] .
  have d: "\<exists>r'. Debug grow cl lgr w = callWrite (cLater cl) r' (lgr\<lparr>records := rs\<rparr>) w \<and>
                  buffer r' = entryText ''DEBUG '' cl" if "level lgr \<le> LevelDebug"
  proof -
    obtain hr where hr: "Header grow LevelDebug (cClock cl) r = Return hr"
      "buffer hr = timestamp (cClock cl) @ ''DEBUG ''"
      using h [of LevelDebug] by (auto simp: levels_distinct)
    let ?r = "Printf grow (cRendered cl) (Location grow (cCaller cl) hr)"
    have "Debug grow cl lgr w = callWrite (cLater cl) ?r (lgr\<lparr>records := rs\<rparr>) w"
      using that assms(2) hr(1) by (simp add: Debug_def bindR_def Let_def)
    moreover have "buffer ?r = entryText ''DEBUG '' cl"
      using hr(2) by (simp add: Printf_buffer Location_buffer entryText_def)
    ultimately show ?thesis by blast
  qed
  have i: "\<exists>r'. Info grow cl lgr w = callWrite (cLater cl) r' (lgr\<lparr>records := rs\<rparr>) w \<and>
                  buffer r' = entryText ''INFO '' cl" if "level lgr \<le> LevelInfo"
  proof -
    obtain hr where hr: "Header grow LevelInfo (cClock cl) r = Return hr"
      "buffer hr = timestamp (cClock cl) @ ''INFO ''"
      using h [of LevelInfo] by (auto simp: levels_distinct)
    let ?r = "Printf grow (cRendered cl) (Location grow (cCaller cl) hr)"
    have "Info grow cl lgr w = callWrite (cLater cl) ?r (lgr\<lparr>records := rs\<rparr>) w"
      using that assms(2) hr(1) by (simp add: Info_def bindR_def Let_def)
    moreover have "buffer ?r = entryText ''INFO '' cl"
      using hr(2) by (simp add: Printf_buffer Location_buffer entryText_def)
    ultimately show ?thesis by blast
  qed
  have wn: "\<exists>r'. Warn grow cl lgr w = callWrite (cLater cl) r' (lgr\<lparr>records := rs\<rparr>) w \<and>
                  buffer r' = entryText ''WARN '' cl" if "level lgr \<le> LevelWarn"
  proof -
    obtain hr where hr: "Header grow LevelWarn (cClock cl) r = Return hr"
      "buffer hr = timestamp (cClock cl) @ ''WARN ''"
      using h [of LevelWarn] by (auto simp: levels_distinct)
    let ?r = "Printf grow (cRendered cl) (Location grow (cCaller cl) hr)"
    have "Warn grow cl lgr w = callWrite (cLater cl) ?r (lgr\<lparr>records := rs\<rparr>) w"
      using that assms(2) hr(1) by (simp add: Warn_def bindR_def Let_def)
    moreover have "buffer ?r = entryText ''WARN '' cl"
      using hr(2) by (simp add: Printf_buffer Location_buffer entryText_def)
    ultimately show ?thesis by blast
  qed
  have er: "\<exists>r'. Error grow cl lgr w = callWrite (cLater cl) r' (lgr\<lparr>records := rs\<rparr>) w \<and>
                  buffer r' = entryText ''ERROR '' cl" if "level lgr \<le> LevelError"
  proof -
    obtain hr where hr: "Header grow LevelError (cClock cl) r = Return hr"
      "buffer hr = timestamp (cClock cl) @ ''ERROR ''"
      using h [of LevelError] by (auto simp: levels_distinct)
    let ?r = "Printf grow (cRendered cl) (Location grow (cCaller cl) hr)"
    have "Error grow cl lgr w = callWrite (cLater cl) ?r (lgr\<lparr>records := rs\<rparr>) w"
      using that assms(2) hr(1) by (simp add: Error_def bindR_def Let_def)
    moreover have "buffer ?r = entryText ''ERROR '' cl"
      using hr(2) by (simp add: Printf_buffer Location_buffer entryText_def)
    ultimately show ?thesis by blast
  qed
  have es: "\<exists>r' stack. ErrorStack grow cl lgr w =
                    callWrite (cLater cl) r' (lgr\<lparr>records := rs\<rparr>) w \<and>
                  buffer r' = entryText ''ERROR '' cl @ stack" if "level lgr \<le> LevelError"
  proof -
    obtain hr where hr: "Header grow LevelError (cClock cl) r = Return hr"
      "buffer hr = timestamp (cClock cl) @ ''ERROR ''"
      using h [of LevelError] by (auto simp: levels_distinct)
    let ?r = "Printf grow (cRendered cl) (Location grow (cCaller cl) hr)"
    obtain stack where st: "buffer (PrintStack grow skipBase (cFrames cl) ?r) = buffer ?r @ stack"
      using PrintStack_buffer by blast
    have "ErrorStack grow cl lgr w =
        callWrite (cLater cl) (PrintStack grow skipBase (cFrames cl) ?r) (lgr\<lparr>records := rs\<rparr>) w"
      using that assms(2) hr(1) by (simp add: ErrorStack_def bindR_def Let_def)
    moreover have "buffer (PrintStack grow skipBase (cFrames cl) ?r) = entryText ''ERROR '' cl @ stack"
      using st hr(2) by (simp add: Printf_buffer Location_buffer entryText_def)
    ultimately show ?thesis by blast
  qed
  show ?thesis using d i wn er es h [of lv] by (simp add: timestamp_length)
qed

text \<open>
  An \<open>Info\<close> call at 10:15:00 from line 42 of \<open>main.go\<close>, on the sink with the discard
  queue: the record that reaches the write path.
\<close>

theorem logged_entry_header_witness:
  "valid_time (cClock ex_call) \<and>
   Get (records (ex_discard_sink [])) (cPick ex_call) = Return (ex_fresh, createRecords 2048 10) \<and>
   level (ex_discard_sink []) \<le> LevelInfo \<and>
   (\<exists>r'. Info max ex_call (ex_discard_sink []) ex_world =
           callWrite (cLater ex_call) r' ((ex_discard_sink [])\<lparr>records := createRecords 2048 10\<rparr>)
             ex_world \<and>
         buffer r' = ''2024-03-09 10:15:00 INFO main.go:42 - hello'' @ [newline])"
proof -
  have v: "valid_time (cClock ex_call)"
    by (simp add: ex_call_def valid_ex_time)
  have g: "Get (records (ex_discard_sink [])) (cPick ex_call) =
      Return (ex_fresh, createRecords 2048 10)"
    by (simp add: Get_def newRecord_def bindR_def ex_discard_sink_def ex_call_def
        createRecords_def ex_fresh_def)
  have l: "level (ex_discard_sink []) \<le> LevelInfo"
    by (simp add: ex_discard_sink_def)
  have n: "Itoa 42 = ''42''"
    by (subst Itoa.simps, subst Itoa.simps) (simp add: digits_def)
  have e: "entryText ''INFO '' ex_call = ''2024-03-09 10:15:00 INFO main.go:42 - hello'' @ [newline]"
    by (simp add: entryText_def ex_call_def timestamp_ex_time n)
  show ?thesis
    using logged_entry_header [OF v g, of max ex_world] v g l by (simp add: e)
qed

text \<open>
  C4 as stated fails: the header is not of one width. At the same clock reading the
  \<open>INFO\<close> header has 25 bytes and the \<open>DEBUG\<close> header 26, so what follows the header
  starts one column earlier at \<open>INFO\<close>.
\<close>

theorem Header_width_counterexample:
  "Header max LevelInfo ex_time ex_fresh =
     Return (ex_fresh\<lparr>buffer := ''2024-03-09 10:15:00 INFO '', month := 3, week := 6,
                      day := 9, hour := 10\<rparr>) \<and>
   Header max LevelDebug ex_time ex_fresh =
     Return (ex_fresh\<lparr>buffer := ''2024-03-09 10:15:00 DEBUG '', month := 3, week := 6,
                      day := 9, hour := 10\<rparr>) \<and>
   length ''2024-03-09 10:15:00 INFO '' \<noteq> length ''2024-03-09 10:15:00 DEBUG ''"
  unfolding Header_unfolded [OF valid_ex_time] Let_def timestamp_ex_time
  by (simp add: levels_distinct goappend_def ex_fresh_def ex_time_def)

section \<open>The pool\<close>

lemma wrap64_le: "0 \<le> x \<Longrightarrow> wrap64 x \<le> x"
proof -
  assume "0 \<le> x"
  then have "(x + 2 ^ 63) mod 2 ^ 64 \<le> x + 2 ^ 63"
    by (intro zmod_le_nonneg_dividend) simp
  then show ?thesis by (simp add: wrap64_def)
qed

definition poolBelow :: "records \<Rightarrow> bool" where
  "poolBelow rs = (\<forall>x \<in> set (pool rs). int (bcap x) < threshold rs)"

lemma Put_fields: "newCap (Put rs r) = newCap rs \<and> threshold (Put rs r) = threshold rs"
  by (simp add: Put_def)

lemma Put_poolBelow: "poolBelow rs \<Longrightarrow> poolBelow (Put rs r)"
  by (auto simp: Put_def poolBelow_def)

lemma Get_fields:
  "Get rs pick = Return (r, rs') \<Longrightarrow> newCap rs' = newCap rs \<and> threshold rs' = threshold rs"
  by (auto simp: Get_def bindR_def newRecord_def split: option.splits if_splits)

lemma Get_poolBelow: "poolBelow rs \<Longrightarrow> Get rs pick = Return (r, rs') \<Longrightarrow> poolBelow rs'"
  by (auto simp: Get_def bindR_def newRecord_def poolBelow_def split: option.splits if_splits)
     (meson in_set_takeD in_set_dropD)+

lemma runPool_inv:
  "poolBelow rs \<Longrightarrow>
   poolBelow (runPool ops rs) \<and> newCap (runPool ops rs) = newCap rs \<and>
   threshold (runPool ops rs) = threshold rs"
proof (induction ops rs rule: runPool.induct)
  case (1 rs)
  then show ?case by simp
next
  case (2 pick ops rs)
  show ?case
  proof (cases "Get rs pick")
    case (Return x)
    obtain r rs' where x: "x = (r, rs')" by (cases x)
    have "poolBelow rs'" using Get_poolBelow [OF "2.prems"] Return x by simp
    then show ?thesis
      using "2.IH"(1) [OF Return x [symmetric]] Get_fields [of rs pick r rs'] Return x by simp
  next
    case (Panic p)
    then show ?thesis using 2 by simp
  qed
next
  case (3 r ops rs)
  then show ?case using Put_poolBelow [of rs r] Put_fields [of rs r] by simp
qed

lemma Get_returns:
  "0 \<le> newCap rs \<Longrightarrow> \<exists>r rs'. Get rs pick = Return (r, rs') \<and> buffer r = []"
  by (auto simp: Get_def bindR_def newRecord_def split: option.splits)

lemma Get_capacity:
  "poolBelow rs \<Longrightarrow> Get rs pick = Return (r, rs') \<Longrightarrow>
   int (bcap r) < threshold rs \<or> bcap r = nat (newCap rs)"
  by (auto simp: Get_def bindR_def newRecord_def poolBelow_def split: option.splits if_splits)

text \<open>
  C8. Take the pool that \<open>createRecords\<close> makes from a positive buffer size and a
  positive factor (what \<open>mergeDefault\<close> hands to it), after any sequence of \<open>Get\<close> and
  \<open>Put\<close> calls. \<open>Get\<close> returns, and the record it returns has a buffer of length zero.
  \<open>Put\<close> either adds the record to the pool or leaves the pool as it is, and it leaves it
  as it is when the record's capacity has reached \<open>recordBytes * recordFactor\<close>. So the
  pool only holds records below that capacity, and a record that \<open>Get\<close> returns is below
  it, unless it is a new one (of capacity \<open>recordBytes\<close>).
\<close>

theorem pool_retention:
  assumes "0 < recordBytes" and "0 < recordFactor"
    and "rs = runPool ops (createRecords recordBytes recordFactor)"
  shows "(\<exists>r' rs'. Get rs pick = Return (r', rs') \<and> length (buffer r') = 0) \<and>
         (pool (Put rs r) = r # pool rs \<or> pool (Put rs r) = pool rs) \<and>
         (recordBytes * recordFactor \<le> int (bcap r) \<longrightarrow> Put rs r = rs) \<and>
         (\<forall>x \<in> set (pool rs). int (bcap x) < recordBytes * recordFactor) \<and>
         (\<forall>r' rs'. Get rs pick = Return (r', rs') \<longrightarrow>
            int (bcap r') < recordBytes * recordFactor \<or> bcap r' = nat recordBytes)"
proof -
  let ?rs0 = "createRecords recordBytes recordFactor"
  have "poolBelow ?rs0" by (simp add: poolBelow_def createRecords_def)
  from runPool_inv [OF this, of ops]
  have inv: "poolBelow rs" and nc: "newCap rs = recordBytes"
    and th: "threshold rs = wrap64 (recordBytes * recordFactor)"
    using assms(3) by (simp_all add: createRecords_def)
  have "0 \<le> recordBytes * recordFactor" using assms(1,2) by simp
  then have le: "threshold rs \<le> recordBytes * recordFactor"
    using wrap64_le th by simp
  have 1: "\<exists>r' rs'. Get rs pick = Return (r', rs') \<and> length (buffer r') = 0"
    using Get_returns [of rs pick] nc assms(1) by auto
  have 2: "pool (Put rs r) = r # pool rs \<or> pool (Put rs r) = pool rs"
    by (simp add: Put_def)
  have 3: "recordBytes * recordFactor \<le> int (bcap r) \<longrightarrow> Put rs r = rs"
    using le by (simp add: Put_def)
  have 4: "\<forall>x \<in> set (pool rs). int (bcap x) < recordBytes * recordFactor"
    using inv le by (fastforce simp: poolBelow_def)
  have 5: "\<forall>r' rs'. Get rs pick = Return (r', rs') \<longrightarrow>
            int (bcap r') < recordBytes * recordFactor \<or> bcap r' = nat recordBytes"
    using Get_capacity [OF inv] le nc by fastforce
  show ?thesis using 1 2 3 4 5 by blast
qed

theorem pool_retention_witness:
  "(0::int) < 2048 \<and> (0::int) < 10 \<and>
   2048 * 10 \<le> int (bcap ex_big) \<and>
   Put (runPool [OpPut (ex_record CHR ''a''), OpGet None] (createRecords 2048 10)) ex_big =
     runPool [OpPut (ex_record CHR ''a''), OpGet None] (createRecords 2048 10) \<and>
   (\<exists>r' rs'. Get (runPool [OpPut (ex_record CHR ''a''), OpGet None] (createRecords 2048 10)) (Some 0)
       = Return (r', rs') \<and> length (buffer r') = 0)"
proof -
  have big: "2048 * 10 \<le> int (bcap ex_big)" by (simp add: ex_big_def)
  from pool_retention [of 2048 10 _ "[OpPut (ex_record CHR ''a''), OpGet None]" "Some 0" ex_big, OF _ _ refl]
  show ?thesis using big by simp
qed

section \<open>Construction and the discardable write\<close>

lemma mergeDefault_DiscardThreshold:
  "DiscardThreshold (mergeDefault (Some c)) = DiscardThreshold c"
  by (simp add: mergeDefault_def Let_def)

text \<open>
  C10. \<open>NewFileLogger\<close> reads \<open>c.File\<close> first, so a nil configuration makes it panic;
  \<open>mergeDefault\<close>, which would turn nil into the defaults, is not reached.
\<close>

theorem NewFileLogger_nil_panics:
  "NewFileLogger None now w = Panic NilPointerDereference \<and>
   mergeDefault None =
     \<lparr>File = STDOUT, Level = 0, RotateBytes = 0, RotateCycle = 0,
      BufferLength = defaultBufferLength, BufferPeriod = defaultBufferPeriod,
      RecordLength = defaultRecordLength, RecordFactor = defaultRecordFactor,
      DiscardThreshold = 0\<rparr>"
  by (simp add: NewFileLogger_def mergeDefault_def newFileConfig_def)

text \<open>
  C6. A positive \<open>DiscardThreshold\<close> makes \<open>NewFileLogger\<close> choose \<open>WriteDiscard\<close> and an
  empty open queue of that capacity. On an open queue, \<open>WriteDiscard\<close> returns without
  a panic; when the queue is full the sink is returned as it was (the record is not
  queued and the pool is not touched), and when there is room the record is queued
  last.
\<close>

theorem WriteDiscard_full_drops:
  "(0 < DiscardThreshold c0 \<and> NewFileLogger (Some c0) now w = Return (Inr lgr0, w') \<longrightarrow>
      Write lgr0 = ViaWriteDiscard \<and>
      discard lgr0 =
        Some \<lparr>items = [], capacity = nat (DiscardThreshold c0), chClosed = False\<rparr>) \<and>
   (discard lgr = Some q \<and> \<not> chClosed q \<and> 0 < capacity q \<longrightarrow>
      (capacity q \<le> length (items q) \<longrightarrow> WriteDiscard r lgr = Return lgr) \<and>
      (length (items q) < capacity q \<longrightarrow>
         WriteDiscard r lgr = Return (lgr\<lparr>discard := Some (q\<lparr>items := items q @ [r]\<rparr>)\<rparr>)))"
proof -
  have a: "Write lgr0 = ViaWriteDiscard \<and>
      discard lgr0 =
        Some \<lparr>items = [], capacity = nat (DiscardThreshold c0), chClosed = False\<rparr>"
    if "0 < DiscardThreshold c0" "NewFileLogger (Some c0) now w = Return (Inr lgr0, w')"
    using that
    by (auto simp: NewFileLogger_def Let_def mergeDefault_DiscardThreshold
        split: sum.splits prod.splits)
  have b: "(capacity q \<le> length (items q) \<longrightarrow> WriteDiscard r lgr = Return lgr) \<and>
      (length (items q) < capacity q \<longrightarrow>
         WriteDiscard r lgr = Return (lgr\<lparr>discard := Some (q\<lparr>items := items q @ [r]\<rparr>)\<rparr>))"
    if "discard lgr = Some q" "\<not> chClosed q"
    using that by (simp add: WriteDiscard_def)
  show ?thesis using a b by blast
qed

lemma ex_discard_built:
  "NewFileLogger (Some ex_discard_config) ex_time ex_world = Return (Inr (ex_discard_sink []), ex_world)"
  by (simp add: NewFileLogger_def ex_discard_config_def ex_discard_sink_def newFileConfig_def
      ToFile_def ToLower_def lower_def STDOUT_def STDERR_def mergeDefault_def Let_def
      createRecords_def defaultBufferLength_def defaultBufferPeriod_def
      defaultRecordLength_def defaultRecordFactor_def)

theorem WriteDiscard_full_drops_witness:
  "0 < DiscardThreshold ex_discard_config \<and>
   NewFileLogger (Some ex_discard_config) ex_time ex_world =
     Return (Inr (ex_discard_sink []), ex_world) \<and>
   Write (ex_discard_sink []) = ViaWriteDiscard \<and>
   WriteDiscard (ex_record CHR ''c'') (ex_discard_sink [ex_record CHR ''a'', ex_record CHR ''b'']) =
     Return (ex_discard_sink [ex_record CHR ''a'', ex_record CHR ''b'']) \<and>
   WriteDiscard (ex_record CHR ''b'') (ex_discard_sink [ex_record CHR ''a'']) =
     Return (ex_discard_sink [ex_record CHR ''a'', ex_record CHR ''b''])"
proof -
  have t: "0 < DiscardThreshold ex_discard_config"
    by (simp add: ex_discard_config_def newFileConfig_def)
  note b = ex_discard_built
  have w: "Write (ex_discard_sink []) = ViaWriteDiscard"
    using WriteDiscard_full_drops [of ex_discard_config ex_time ex_world "ex_discard_sink []" ex_world]
      t b by simp
  have full: "WriteDiscard (ex_record CHR ''c'') (ex_discard_sink [ex_record CHR ''a'', ex_record CHR ''b'']) =
     Return (ex_discard_sink [ex_record CHR ''a'', ex_record CHR ''b''])"
    using WriteDiscard_full_drops [of _ _ _ _ _
        "ex_discard_sink [ex_record CHR ''a'', ex_record CHR ''b'']"
        "\<lparr>items = [ex_record CHR ''a'', ex_record CHR ''b''], capacity = 2, chClosed = False\<rparr>"
        "ex_record CHR ''c''"]
    by (simp add: ex_discard_sink_def)
  have room: "WriteDiscard (ex_record CHR ''b'') (ex_discard_sink [ex_record CHR ''a'']) =
     Return (ex_discard_sink [ex_record CHR ''a'', ex_record CHR ''b''])"
    using WriteDiscard_full_drops [of _ _ _ _ _
        "ex_discard_sink [ex_record CHR ''a'']"
        "\<lparr>items = [ex_record CHR ''a''], capacity = 2, chClosed = False\<rparr>"
        "ex_record CHR ''b''"]
    by (simp add: ex_discard_sink_def)
  show ?thesis using t b w full room by simp
qed

section \<open>The direct write\<close>

text \<open>What an operation leaves alone in the world.\<close>

definition sameEnv :: "world \<Rightarrow> world \<Rightarrow> bool" where
  "sameEnv w w' =
     (renames w' = renames w \<and> diag w' = diag w \<and> noopen w' = noopen w \<and> nospace w' = nospace w)"

lemma sameEnv_refl: "sameEnv w w"
  by (simp add: sameEnv_def)

lemma sameEnv_trans: "sameEnv w w1 \<Longrightarrow> sameEnv w1 w2 \<Longrightarrow> sameEnv w w2"
  by (simp add: sameEnv_def)

lemma fileWrite_sameEnv: "sameEnv w (snd (fileWrite f p w))"
  by (simp add: fileWrite_def sameEnv_def split: target.splits)

lemma bufFlush_sameEnv: "sameEnv w (snd (bufFlush f b w))"
proof (cases "fileWrite f (wbuf b) w")
  case (Pair x y)
  then show ?thesis
    using fileWrite_sameEnv [of w f "wbuf b"]
    by (auto simp: bufFlush_def sameEnv_refl split: option.splits)
qed

lemma bufFlush_wsize: "wsize (fst (bufFlush f b w)) = wsize b"
  by (simp add: bufFlush_def split: prod.splits option.splits)

lemma bufWrite_sameEnv: "sameEnv w (snd (snd (bufWrite f b p w)))"
proof (induction f b p w rule: bufWrite.induct)
  case (1 f b p w)
  show ?case
  proof (cases "length p > wsize b - length (wbuf b) \<and> werr b = None")
    case False
    then show ?thesis by (subst bufWrite.simps) (auto simp: sameEnv_refl)
  next
    case True
    show ?thesis
    proof (cases "wbuf b = []")
      case e: True
      obtain x y where fw: "fileWrite f p w = (x, y)" by (cases "fileWrite f p w")
      have sy: "sameEnv w y" using fileWrite_sameEnv [of w f p] fw by simp
      show ?thesis
      proof (cases x)
        case None
        have "sameEnv y (snd (snd (bufWrite f b [] y)))"
          using "1.IH"(1) [OF True e fw [symmetric] None] .
        then show ?thesis
          using True e fw None sy by (subst bufWrite.simps) (auto intro: sameEnv_trans)
      next
        case (Some err)
        have "sameEnv y (snd (snd (bufWrite f (b\<lparr>werr := Some err\<rparr>) p y)))"
          using "1.IH"(2) [OF True e fw [symmetric] Some] .
        then show ?thesis
          using True e fw Some sy by (subst bufWrite.simps) (auto intro: sameEnv_trans)
      qed
    next
      case ne: False
      let ?n = "wsize b - length (wbuf b)"
      let ?bw = "bufFlush f (b\<lparr>wbuf := wbuf b @ take ?n p\<rparr>) w"
      have "sameEnv (snd ?bw) (snd (snd (bufWrite f (fst ?bw) (drop ?n p) (snd ?bw))))"
        using "1.IH"(3) [OF True ne refl refl] .
      moreover have "sameEnv w (snd ?bw)" by (rule bufFlush_sameEnv)
      ultimately show ?thesis
        using True ne by (subst bufWrite.simps) (auto simp: Let_def intro: sameEnv_trans)
    qed
  qed
qed


lemma OpenFile_sameEnv: "OpenFile p w = Inr (f, w') \<Longrightarrow> sameEnv w w'"
  by (auto simp: OpenFile_def sameEnv_def split: if_splits)

lemma ToFile_sameEnv: "ToFile p w = Inr (f, w') \<Longrightarrow> sameEnv w w'"
  by (auto simp: ToFile_def Let_def sameEnv_refl split: if_splits dest: OpenFile_sameEnv)

lemma Rename_renames: "renames (Rename old new w) = renames w @ [(old, new)]"
  by (simp add: Rename_def Let_def split: option.splits)

lemma Rename_env:
  "diag (Rename old new w) = diag w \<and> noopen (Rename old new w) = noopen w \<and>
   nospace (Rename old new w) = nospace w"
  by (simp add: Rename_def Let_def split: option.splits)

text \<open>The name that \<open>rotating\<close> gives to the file it moves away.\<close>

definition rotatedName :: "fileLogger \<Rightarrow> world \<Rightarrow> string" where
  "rotatedName lgr w =
     (let rotateFile = File (conf lgr) @ ''.'' @ rotateSuffix lgr in
      if Stat w rotateFile then nextFree w rotateFile 0 else rotateFile)"

lemma rotating_renames:
  "renames (snd (rotating now lgr w)) = renames w @ [(File (conf lgr), rotatedName lgr w)]"
proof -
  let ?bw = "bufFlush (file lgr) (writer lgr) w"
  let ?w2 = "Rename (File (conf lgr)) (rotatedName lgr w) (snd ?bw)"
  have r2: "renames ?w2 = renames w @ [(File (conf lgr), rotatedName lgr w)]"
    using bufFlush_sameEnv [of w "file lgr" "writer lgr"]
    by (simp add: Rename_renames sameEnv_def)
  show ?thesis
  proof (cases "ToFile (File (conf lgr)) ?w2")
    case (Inl err)
    then show ?thesis
      using r2 by (simp add: rotating_def rotatedName_def Let_def)
  next
    case (Inr fw)
    obtain f w' where fw: "fw = (f, w')" by (cases fw)
    have "renames w' = renames ?w2"
      using ToFile_sameEnv [of "File (conf lgr)" ?w2 f w'] Inr fw by (simp add: sameEnv_def)
    then show ?thesis
      using r2 Inr fw by (simp add: rotating_def rotatedName_def Let_def)
  qed
qed

lemma rotating_fields:
  "records (fst (rotating now lgr w)) = records lgr \<and>
   discard (fst (rotating now lgr w)) = discard lgr \<and>
   conf (fst (rotating now lgr w)) = conf lgr \<and>
   rotate_on (fst (rotating now lgr w)) = rotate_on lgr"
  by (simp add: rotating_def Let_def split: sum.splits prod.splits)

text \<open>Whether the part of \<open>WriteDirect\<close> before the write rolls the file over.\<close>

definition rollsOver :: "fileLogger \<Rightarrow> lrecord \<Rightarrow> bool" where
  "rollsOver lgr r =
     (rotate_on lgr \<and>
      (CycleOff < RotateCycle (conf lgr) \<and> cycleChanged lgr r \<or>
       0 < RotateBytes (conf lgr) \<and> wrap64 (rotateRemain lgr - int (length (buffer r))) < 0))"

lemma beforeWrite_renames:
  "length (renames (snd (beforeWrite now r lgr w))) =
     length (renames w) + (if rollsOver lgr r then 1 else 0)"
  by (simp add: beforeWrite_def rollsOver_def Let_def rotating_renames)

lemma beforeWrite_fields:
  "records (fst (beforeWrite now r lgr w)) = records lgr \<and>
   discard (fst (beforeWrite now r lgr w)) = discard lgr \<and>
   conf (fst (beforeWrite now r lgr w)) = conf lgr \<and>
   rotate_on (fst (beforeWrite now r lgr w)) = rotate_on lgr"
  by (simp add: beforeWrite_def Let_def rotating_fields)

lemma WriteDirect_renames:
  "length (renames (snd (WriteDirect now r lgr w))) =
     length (renames w) + (if rollsOver lgr r then 1 else 0)"
proof -
  let ?lw = "beforeWrite now r lgr w"
  let ?ebw = "bufWrite (file (fst ?lw)) (writer (fst ?lw)) (buffer r) (snd ?lw)"
  have "renames (snd (snd ?ebw)) = renames (snd ?lw)"
    using bufWrite_sameEnv [of "snd ?lw" "file (fst ?lw)" "writer (fst ?lw)" "buffer r"]
    by (simp add: sameEnv_def)
  then have "renames (snd (WriteDirect now r lgr w)) = renames (snd ?lw)"
    by (simp add: WriteDirect_def Let_def split: option.splits)
  then show ?thesis by (simp add: beforeWrite_renames)
qed

lemma WriteDirect_fields:
  "records (fst (WriteDirect now r lgr w)) = Put (records lgr) r \<and>
   discard (fst (WriteDirect now r lgr w)) = discard lgr \<and>
   conf (fst (WriteDirect now r lgr w)) = conf lgr \<and>
   rotate_on (fst (WriteDirect now r lgr w)) = rotate_on lgr"
  by (simp add: WriteDirect_def Let_def beforeWrite_fields)


lemma cycles_distinct:
  "CycleOff < CycleHourly" "CycleOff < CycleDaily" "CycleOff < CycleWeekly" "CycleOff < CycleMonthly"
  "CycleHourly \<noteq> CycleDaily" "CycleHourly \<noteq> CycleWeekly" "CycleHourly \<noteq> CycleMonthly"
  "CycleDaily \<noteq> CycleHourly" "CycleDaily \<noteq> CycleWeekly" "CycleDaily \<noteq> CycleMonthly"
  "CycleWeekly \<noteq> CycleHourly" "CycleWeekly \<noteq> CycleDaily" "CycleWeekly \<noteq> CycleMonthly"
  "CycleMonthly \<noteq> CycleHourly" "CycleMonthly \<noteq> CycleDaily" "CycleMonthly \<noteq> CycleWeekly"
  by (simp_all add: CycleOff_def CycleHourly_def CycleDaily_def CycleWeekly_def CycleMonthly_def)

lemma ex_daily_built:
  "NewFileLogger (Some ex_daily_config) ex_time ex_world = Return (Inr (ex_sink ex_daily_config), ex_opened)"
  by (simp add: NewFileLogger_def ex_daily_config_def ex_sink_def newFileConfig_def
      ToFile_def ToLower_def lower_def STDOUT_def STDERR_def mergeDefault_def Let_def
      createRecords_def defaultBufferLength_def defaultBufferPeriod_def
      defaultRecordLength_def defaultRecordFactor_def OpenFile_def Stat_def ex_world_def
      ex_opened_def ex_time_def formatSuffix_def two_def digits_def CycleDaily_def)

text \<open>
  C3. On a sink that rotates, with one of the four calendar cycles, one \<open>WriteDirect\<close>
  makes exactly one rollover (one \<open>os.Rename\<close>) when the record's stored fields differ
  from the sink's snapshot in the way the cycle asks: the month for monthly; the month
  or the weekday for weekly; the month, the weekday or the day for daily; the month, the
  weekday, the day or the hour for hourly. When the compared fields are equal, there
  is no calendar rollover: the only rollover left is the one of size rotation, when
  that is configured and the remaining budget goes below zero.
\<close>

theorem calendar_rollover:
  assumes "rotate_on lgr"
    and "RotateCycle (conf lgr) \<in> {CycleHourly, CycleDaily, CycleWeekly, CycleMonthly}"
  shows "length (renames (snd (WriteDirect now r lgr w))) =
     length (renames w) +
     (if (RotateCycle (conf lgr) = CycleMonthly \<and> month r \<noteq> rotateMonth lgr) \<or>
         (RotateCycle (conf lgr) = CycleWeekly \<and>
            (month r \<noteq> rotateMonth lgr \<or> week r \<noteq> rotateWeek lgr)) \<or>
         (RotateCycle (conf lgr) = CycleDaily \<and>
            (month r \<noteq> rotateMonth lgr \<or> week r \<noteq> rotateWeek lgr \<or>
             day r \<noteq> rotateDay lgr)) \<or>
         (RotateCycle (conf lgr) = CycleHourly \<and>
            (month r \<noteq> rotateMonth lgr \<or> week r \<noteq> rotateWeek lgr \<or>
             day r \<noteq> rotateDay lgr \<or> hour r \<noteq> rotateHour lgr))
      then 1
      else if 0 < RotateBytes (conf lgr) \<and>
              wrap64 (rotateRemain lgr - int (length (buffer r))) < 0
      then 1 else 0)"
proof -
  have on: "CycleOff < RotateCycle (conf lgr)"
    using assms(2) cycles_distinct(1-4) by auto
  show ?thesis
    unfolding WriteDirect_renames rollsOver_def cycleChanged_def Let_def
    using assms on cycles_distinct by auto
qed

text \<open>
  A daily sink whose snapshot is day 9: a record of day 10 rolls the file over, a
  record of day 9 does not.
\<close>

theorem calendar_rollover_witness:
  "rotate_on (ex_sink ex_daily_config) \<and>
   RotateCycle (conf (ex_sink ex_daily_config)) \<in> {CycleHourly, CycleDaily, CycleWeekly, CycleMonthly} \<and>
   length (renames (snd (WriteDirect ex_time ((ex_record CHR ''a'')\<lparr>day := 10\<rparr>)
                           (ex_sink ex_daily_config) ex_opened))) = 1 \<and>
   length (renames (snd (WriteDirect ex_time (ex_record CHR ''a'')
                           (ex_sink ex_daily_config) ex_opened))) = 0"
proof -
  have a: "rotate_on (ex_sink ex_daily_config)"
    by (simp add: ex_sink_def ex_daily_config_def newFileConfig_def CycleDaily_def)
  have c: "conf (ex_sink ex_daily_config) = (mergeDefault (Some ex_daily_config))"
    by (simp add: ex_sink_def)
  have d: "RotateCycle (mergeDefault (Some ex_daily_config)) = CycleDaily"
     "RotateBytes (mergeDefault (Some ex_daily_config)) = 0"
    by (simp_all add: mergeDefault_def ex_daily_config_def newFileConfig_def Let_def)
  have b: "RotateCycle (conf (ex_sink ex_daily_config)) \<in> {CycleHourly, CycleDaily, CycleWeekly, CycleMonthly}"
    by (simp add: c d)
  have f: "rotateMonth (ex_sink ex_daily_config) = 3" "rotateWeek (ex_sink ex_daily_config) = 6"
    "rotateDay (ex_sink ex_daily_config) = 9" "renames ex_opened = []"
    by (simp_all add: ex_sink_def ex_opened_def ex_world_def)
  show ?thesis
    using calendar_rollover [OF a b, of ex_time "(ex_record CHR ''a'')\<lparr>day := 10\<rparr>" ex_opened]
      calendar_rollover [OF a b, of ex_time "ex_record CHR ''a''" ex_opened]
    by (simp add: a c d f cycles_distinct ex_record_def)
qed


lemma bindR_Return: "bindR m f = Return y \<Longrightarrow> \<exists>x. m = Return x \<and> f x = Return y"
  by (cases m) (simp_all add: bindR_def)

lemma Header_fields:
  assumes "Header grow lv t r = Return r'"
  shows "month r' = tMonth t \<and> week r' = tWeekday t \<and> day r' = tDay t \<and> hour r' = tHour t \<and>
         minute r' = minute r"
  using assms unfolding Header_def Let_def
  by (auto dest!: bindR_Return simp: goappend_def split: if_splits)

lemma rotatedName_remain:
  "rotatedName (lgr\<lparr>rotateRemain := x\<rparr>) w = rotatedName lgr w"
  by (simp add: rotatedName_def)

lemma beforeWrite_renames_eq:
  "renames (snd (beforeWrite now r lgr w)) =
     renames w @ (if rollsOver lgr r then [(File (conf lgr), rotatedName lgr w)] else [])"
  by (simp add: beforeWrite_def rollsOver_def Let_def rotating_renames rotatedName_remain)

lemma WriteDirect_renames_eq:
  "renames (snd (WriteDirect now r lgr w)) =
     renames w @ (if rollsOver lgr r then [(File (conf lgr), rotatedName lgr w)] else [])"
proof -
  let ?lw = "beforeWrite now r lgr w"
  let ?ebw = "bufWrite (file (fst ?lw)) (writer (fst ?lw)) (buffer r) (snd ?lw)"
  have "renames (snd (snd ?ebw)) = renames (snd ?lw)"
    using bufWrite_sameEnv [of "snd ?lw" "file (fst ?lw)" "writer (fst ?lw)" "buffer r"]
    by (simp add: sameEnv_def)
  then have "renames (snd (WriteDirect now r lgr w)) = renames (snd ?lw)"
    by (simp add: WriteDirect_def Let_def split: option.splits)
  then show ?thesis by (simp add: beforeWrite_renames_eq)
qed

text \<open>
  C5, as the source has it. \<open>Header\<close> stores the month, the weekday, the day of the
  month and the hour of its own clock reading on the record. From a given sink and
  world, the rollovers that one \<open>WriteDirect\<close> makes for a record are the same whatever
  the clock reads when it runs: the comparison of that write uses the record's stored
  fields and the sink's snapshot only. Nothing is said here of a sequence of writes,
  where the snapshot of a later comparison is the one an earlier rollover stored.
\<close>

theorem calendar_fields_captured:
  "(Header grow lv t r0 = Return r' \<longrightarrow>
      month r' = tMonth t \<and> week r' = tWeekday t \<and> day r' = tDay t \<and> hour r' = tHour t) \<and>
   renames (snd (WriteDirect now1 r lgr w)) = renames (snd (WriteDirect now2 r lgr w))"
  using Header_fields [of grow lv t r0 r'] by (simp add: WriteDirect_renames_eq)

text \<open>
  The hourly sink as \<open>NewFileLogger\<close> builds it at \<open>ex_time\<close>, its first write of a queued
  record at any clock reading, and the rollovers of two such writes at the same reading.
  The first write rolls over (the record's hour 11 is not the sink's 10), and \<open>rotating\<close>
  stores the fields of the clock reading of that moment as the sink's snapshot; the
  second write compares the record's hour 11 with that reading.
\<close>

lemma ex_hourly_built:
  "NewFileLogger (Some ex_hourly_config) ex_time ex_world = Return (Inr (ex_sink ex_hourly_config), ex_opened)"
  by (simp add: NewFileLogger_def ex_hourly_config_def ex_sink_def newFileConfig_def
      ToFile_def ToLower_def lower_def STDOUT_def STDERR_def mergeDefault_def Let_def
      createRecords_def defaultBufferLength_def defaultBufferPeriod_def
      defaultRecordLength_def defaultRecordFactor_def OpenFile_def Stat_def ex_world_def
      ex_opened_def ex_time_def formatSuffix_def two_def digits_def CycleHourly_def)

lemma ex_hourly_first:
  "WriteDirect now (ex_queued ch) (ex_sink ex_hourly_config) ex_opened =
     ((ex_sink ex_hourly_config)
        \<lparr>rotateMonth := tMonth now, rotateWeek := tWeekday now, rotateDay := tDay now,
         rotateHour := tHour now, rotateSuffix := formatSuffix now, rotateRemain := 0,
         writer := \<lparr>wbuf = replicate 30 ch, wsize = 262144, werr = None\<rparr>,
         records := (createRecords 2048 10)\<lparr>pool := [ex_queued ch]\<rparr>\<rparr>,
      ex_opened\<lparr>files := [(''app.log..101500'', []), (''app.log'', [])],
                renames := [(''app.log'', ''app.log..101500'')]\<rparr>)"
proof -
  let ?l = "(ex_sink ex_hourly_config)
        \<lparr>rotateMonth := tMonth now, rotateWeek := tWeekday now, rotateDay := tDay now,
         rotateHour := tHour now, rotateSuffix := formatSuffix now, rotateRemain := 0\<rparr>"
  let ?w = "ex_opened\<lparr>files := [(''app.log..101500'', []), (''app.log'', [])],
                renames := [(''app.log'', ''app.log..101500'')]\<rparr>"
  have bw: "beforeWrite now (ex_queued ch) (ex_sink ex_hourly_config) ex_opened = (?l, ?w)"
    by (simp add: beforeWrite_def cycleChanged_def rotating_def ex_sink_def ex_hourly_config_def
        newFileConfig_def mergeDefault_def Let_def CycleOff_def CycleHourly_def CycleDaily_def
        CycleWeekly_def CycleMonthly_def ex_queued_def
        bufFlush_def fileWrite_def Rename_def ToFile_def OpenFile_def Stat_def content_def
        ToLower_def lower_def STDOUT_def STDERR_def ex_opened_def ex_world_def
        NewWriterSize_def defaultBufferLength_def defaultBufferPeriod_def
        defaultRecordLength_def defaultRecordFactor_def)
  have wr: "bufWrite (file ?l) (writer ?l) (buffer (ex_queued ch)) ?w =
      (None, \<lparr>wbuf = replicate 30 ch, wsize = 262144, werr = None\<rparr>, ?w)"
    by (subst bufWrite.simps)
      (simp add: ex_sink_def ex_hourly_config_def newFileConfig_def mergeDefault_def
        NewWriterSize_def defaultBufferLength_def ex_queued_def)
  show ?thesis
    unfolding WriteDirect_def bw Let_def fst_conv snd_conv wr
    by (simp add: ex_sink_def Put_def createRecords_def ex_queued_def wrap64_def)
qed


lemma ex_hourly_second:
  assumes "formatSuffix now \<noteq> ''.101500''"
  shows "renames (snd (writeAll [(now, ex_queued c1), (now, ex_queued c2)]
      (ex_sink ex_hourly_config) ex_opened)) =
   [(''app.log'', ''app.log..101500'')] @
   (if tMonth now \<noteq> 3 \<or> tWeekday now \<noteq> 6 \<or> tDay now \<noteq> 9 \<or> tHour now \<noteq> 11
    then [(''app.log'', ''app.log.'' @ formatSuffix now)] else [])"
proof -
  let ?l = "(ex_sink ex_hourly_config)
        \<lparr>rotateMonth := tMonth now, rotateWeek := tWeekday now, rotateDay := tDay now,
         rotateHour := tHour now, rotateSuffix := formatSuffix now, rotateRemain := 0,
         writer := \<lparr>wbuf = replicate 30 c1, wsize = 262144, werr = None\<rparr>,
         records := (createRecords 2048 10)\<lparr>pool := [ex_queued c1]\<rparr>\<rparr>"
  let ?w = "ex_opened\<lparr>files := [(''app.log..101500'', []), (''app.log'', [])],
                renames := [(''app.log'', ''app.log..101500'')]\<rparr>"
  have run: "writeAll [(now, ex_queued c1), (now, ex_queued c2)] (ex_sink ex_hourly_config) ex_opened =
      WriteDirect now (ex_queued c2) ?l ?w"
    by (simp only: writeAll.simps Let_def ex_hourly_first fst_conv snd_conv prod.collapse)
  have ro: "rollsOver ?l (ex_queued c2) =
      (tMonth now \<noteq> 3 \<or> tWeekday now \<noteq> 6 \<or> tDay now \<noteq> 9 \<or> tHour now \<noteq> 11)"
    by (auto simp add: rollsOver_def cycleChanged_def ex_sink_def ex_hourly_config_def
        newFileConfig_def mergeDefault_def Let_def ex_queued_def CycleHourly_def
        CycleOff_def CycleDaily_def CycleWeekly_def CycleMonthly_def)
  have nm: "rotatedName ?l ?w = ''app.log.'' @ formatSuffix now"
    using assms
    by (simp add: rotatedName_def Let_def Stat_def ex_sink_def ex_hourly_config_def
        newFileConfig_def mergeDefault_def ex_opened_def ex_world_def)
  have cf: "File (conf ?l) = ''app.log''"
    by (simp add: ex_sink_def ex_hourly_config_def newFileConfig_def mergeDefault_def)
  show ?thesis
    unfolding run WriteDirect_renames_eq ro nm cf by simp
qed

lemma ex_suffixes:
  "formatSuffix ex_before = ''.115959''" "formatSuffix ex_after = ''.120001''"
  by (simp_all add: ex_before_def ex_after_def formatSuffix_def two_def digits_def)

text \<open>
  C5 as stated fails twice. For the minute: \<open>Header\<close> never assigns the field \<open>minute\<close>,
  and a new record formatted at 10:15 keeps the minute 0. For the queuing delay: the hourly
  sink built at 10:15:00 writes the same two records of 11 o'clock with one rollover when
  they are written at 11:59:59 and with two when they are written at 12:00:01.
\<close>

theorem minute_and_drain_clock_counterexample:
  "Header max LevelInfo ex_time ex_fresh =
     Return (ex_fresh\<lparr>buffer := ''2024-03-09 10:15:00 INFO '', month := 3, week := 6,
                      day := 9, hour := 10\<rparr>) \<and>
   minute (ex_fresh\<lparr>buffer := ''2024-03-09 10:15:00 INFO '', month := 3, week := 6,
                    day := 9, hour := 10\<rparr>) \<noteq> tMinute ex_time \<and>
   NewFileLogger (Some ex_hourly_config) ex_time ex_world =
     Return (Inr (ex_sink ex_hourly_config), ex_opened) \<and>
   renames (snd (writeAll [(ex_before, ex_queued CHR ''a''), (ex_before, ex_queued CHR ''b'')]
      (ex_sink ex_hourly_config) ex_opened)) = [(''app.log'', ''app.log..101500'')] \<and>
   renames (snd (writeAll [(ex_after, ex_queued CHR ''a''), (ex_after, ex_queued CHR ''b'')]
      (ex_sink ex_hourly_config) ex_opened)) =
     [(''app.log'', ''app.log..101500''), (''app.log'', ''app.log..120001'')]"
proof -
  have h: "Header max LevelInfo ex_time ex_fresh =
     Return (ex_fresh\<lparr>buffer := ''2024-03-09 10:15:00 INFO '', month := 3, week := 6,
                      day := 9, hour := 10\<rparr>)"
    unfolding Header_unfolded [OF valid_ex_time] Let_def timestamp_ex_time
    by (simp add: levels_distinct goappend_def ex_fresh_def ex_time_def)
  have m: "minute (ex_fresh\<lparr>buffer := ''2024-03-09 10:15:00 INFO '', month := 3, week := 6,
                    day := 9, hour := 10\<rparr>) \<noteq> tMinute ex_time"
    by (simp add: ex_fresh_def ex_time_def)
  have a: "formatSuffix ex_before \<noteq> ''.101500''" "formatSuffix ex_after \<noteq> ''.101500''"
    by (simp_all add: ex_suffixes)
  have d1: "renames (snd (writeAll [(ex_before, ex_queued CHR ''a''), (ex_before, ex_queued CHR ''b'')]
      (ex_sink ex_hourly_config) ex_opened)) = [(''app.log'', ''app.log..101500'')]"
    unfolding ex_hourly_second [OF a(1)] by (simp add: ex_before_def)
  have d2: "renames (snd (writeAll [(ex_after, ex_queued CHR ''a''), (ex_after, ex_queued CHR ''b'')]
      (ex_sink ex_hourly_config) ex_opened)) =
     [(''app.log'', ''app.log..101500''), (''app.log'', ''app.log..120001'')]"
    unfolding ex_hourly_second [OF a(2)] ex_suffixes by (simp add: ex_after_def)
  from h m ex_hourly_built d1 d2 show ?thesis by (intro conjI)
qed

text \<open>
  The record formatted at \<open>ex_time\<close>, and a write of the same record at two different
  clock readings.
\<close>

theorem calendar_fields_captured_witness:
  "Header max LevelInfo ex_time ex_fresh =
     Return (ex_fresh\<lparr>buffer := ''2024-03-09 10:15:00 INFO '', month := 3, week := 6,
                      day := 9, hour := 10\<rparr>) \<and>
   month (ex_fresh\<lparr>buffer := ''2024-03-09 10:15:00 INFO '', month := 3, week := 6,
                   day := 9, hour := 10\<rparr>) = tMonth ex_time \<and>
   renames (snd (WriteDirect ex_time (ex_record CHR ''a'') (ex_sink ex_daily_config) ex_opened)) =
   renames (snd (WriteDirect ex_late (ex_record CHR ''a'') (ex_sink ex_daily_config) ex_opened))"
proof -
  have h: "Header max LevelInfo ex_time ex_fresh =
     Return (ex_fresh\<lparr>buffer := ''2024-03-09 10:15:00 INFO '', month := 3, week := 6,
                      day := 9, hour := 10\<rparr>)"
    unfolding Header_unfolded [OF valid_ex_time] Let_def timestamp_ex_time
    by (simp add: levels_distinct goappend_def ex_fresh_def ex_time_def)
  show ?thesis
    using calendar_fields_captured [of max LevelInfo ex_time ex_fresh
        "ex_fresh\<lparr>buffer := ''2024-03-09 10:15:00 INFO '', month := 3, week := 6,
                      day := 9, hour := 10\<rparr>" ex_time "ex_record CHR ''a''"
        "ex_sink ex_daily_config" ex_opened ex_late] h
    by simp
qed

text \<open>
  C7. \<open>WriteDirect\<close> always returns, and it returns no error. Whatever happened before
  (a rollover or none) and whatever the append returned, the sink's pool afterwards is
  \<open>Put\<close> of the pool before and the record. The diagnostics afterwards are those after
  the rotation step, followed by one \<open>logger write error\<close> entry exactly when the append
  to the buffered writer returned an error.
\<close>

theorem WriteDirect_reports_and_releases:
  "records (fst (WriteDirect now r lgr w)) = Put (records lgr) r \<and>
   (let lw = beforeWrite now r lgr w;
        res = bufWrite (file (fst lw)) (writer (fst lw)) (buffer r) (snd lw)
    in diag (snd (WriteDirect now r lgr w)) =
         diag (snd lw) @ (case fst res of None \<Rightarrow> [] | Some err \<Rightarrow> [LoggerWriteError err]))"
proof -
  let ?lw = "beforeWrite now r lgr w"
  let ?ebw = "bufWrite (file (fst ?lw)) (writer (fst ?lw)) (buffer r) (snd ?lw)"
  have "diag (snd (snd ?ebw)) = diag (snd ?lw)"
    using bufWrite_sameEnv [of "snd ?lw" "file (fst ?lw)" "writer (fst ?lw)" "buffer r"]
    by (simp add: sameEnv_def)
  then have "diag (snd (WriteDirect now r lgr w)) =
         diag (snd ?lw) @ (case fst ?ebw of None \<Rightarrow> [] | Some err \<Rightarrow> [LoggerWriteError err])"
    by (simp add: WriteDirect_def Let_def split: option.splits)
  then show ?thesis
    using WriteDirect_fields [of now r lgr w] by (simp add: Let_def)
qed


lemma ex_small_built:
  "NewFileLogger (Some ex_small_config) ex_time ex_world = Return (Inr (ex_sink ex_small_config), ex_opened)"
  by (simp add: NewFileLogger_def ex_small_config_def ex_sink_def newFileConfig_def
      ToFile_def ToLower_def lower_def STDOUT_def STDERR_def mergeDefault_def Let_def
      createRecords_def defaultBufferLength_def defaultBufferPeriod_def
      defaultRecordLength_def defaultRecordFactor_def OpenFile_def Stat_def ex_world_def
      ex_opened_def ex_time_def formatSuffix_def two_def digits_def)

text \<open>
  A write that fails: the buffer of 16 bytes cannot take the 30 bytes, and the device
  rejects them. The error is reported, and the record is in the pool afterwards.
\<close>

theorem WriteDirect_reports_and_releases_witness:
  "records (fst (WriteDirect ex_time (ex_record CHR ''a'') (ex_sink ex_small_config)
                   (ex_opened\<lparr>nospace := True\<rparr>))) =
     (createRecords 2048 10)\<lparr>pool := [ex_record CHR ''a'']\<rparr> \<and>
   diag (snd (WriteDirect ex_time (ex_record CHR ''a'') (ex_sink ex_small_config)
                (ex_opened\<lparr>nospace := True\<rparr>))) = [LoggerWriteError ErrNoSpace]"
proof -
  have bw: "beforeWrite ex_time (ex_record CHR ''a'') (ex_sink ex_small_config)
      (ex_opened\<lparr>nospace := True\<rparr>) =
      ((ex_sink ex_small_config)\<lparr>rotateRemain := 70\<rparr>, ex_opened\<lparr>nospace := True\<rparr>)"
    by (simp add: beforeWrite_def ex_sink_def ex_small_config_def newFileConfig_def
        mergeDefault_def Let_def CycleOff_def ex_record_def wrap64_def)
  have res: "fst (bufWrite (file (ex_sink ex_small_config)) (writer (ex_sink ex_small_config))
      (buffer (ex_record CHR ''a'')) (ex_opened\<lparr>nospace := True\<rparr>)) = Some ErrNoSpace"
    by (simp add: bufWrite.simps ex_sink_def ex_small_config_def newFileConfig_def
        mergeDefault_def Let_def NewWriterSize_def ex_record_def fileWrite_def)
  have dg: "diag (ex_opened\<lparr>nospace := True\<rparr>) = []"
    by (simp add: ex_opened_def ex_world_def)
  have put: "Put (records (ex_sink ex_small_config)) (ex_record CHR ''a'') =
     (createRecords 2048 10)\<lparr>pool := [ex_record CHR ''a'']\<rparr>"
    by (simp add: Put_def ex_sink_def createRecords_def ex_record_def wrap64_def)
  show ?thesis
    using WriteDirect_reports_and_releases [of ex_time "ex_record CHR ''a''"
        "ex_sink ex_small_config" "ex_opened\<lparr>nospace := True\<rparr>"]
    by (simp add: bw res put dg Let_def)
qed

section \<open>The name of the rotated file\<close>

text \<open>
  C2: what the source does. \<open>rotating\<close> joins the path, a dot and the stored suffix,
  and the suffix (\<open>SuffixFormat\<close>) already starts with a dot: the file \<open>app.log\<close> of a
  sink made at 10:15:00 is renamed to \<open>app.log..101500\<close>, with two dots. When that name
  and \<open>app.log..101500.0\<close> exist, the name is \<open>app.log..101500.1\<close>.
\<close>

theorem rotating_name_has_two_dots:
  "renames (snd (rotating ex_late (ex_sink ex_daily_config) ex_opened)) =
     [(''app.log'', ''app.log..101500'')] \<and>
   renames (snd (rotating ex_late (ex_sink ex_daily_config)
      (ex_opened\<lparr>files := [(''app.log'', []), (''app.log..101500'', ''old''),
                              (''app.log..101500.0'', ''older'')]\<rparr>))) =
     [(''app.log'', ''app.log..101500.1'')]"
  by (simp add: rotating_renames rotatedName_def ex_sink_def ex_daily_config_def
      newFileConfig_def mergeDefault_def Let_def ex_opened_def ex_world_def Stat_def
      nextFree.simps Itoa.simps digits_def)

section \<open>Size rotation: where the bytes end up\<close>

text \<open>Outside the paths in \<open>S\<close>, the files of \<open>w\<close> and \<open>w'\<close> are the same.\<close>

definition others :: "string set \<Rightarrow> world \<Rightarrow> world \<Rightarrow> bool" where
  "others S w w' = (\<forall>q. q \<notin> S \<longrightarrow> map_of (files w') q = map_of (files w) q)"

lemma others_refl: "others S w w"
  by (simp add: others_def)

lemma others_trans: "others S w w1 \<Longrightarrow> others S w1 w2 \<Longrightarrow> others S w w2"
  by (simp add: others_def)

lemma others_mono: "others S w w' \<Longrightarrow> S \<subseteq> T \<Longrightarrow> others T w w'"
  by (auto simp: others_def)

lemma others_content: "others S w w' \<Longrightarrow> q \<notin> S \<Longrightarrow> content w' q = content w q"
  by (simp add: others_def content_def)

lemma others_Stat: "others S w w' \<Longrightarrow> q \<notin> S \<Longrightarrow> Stat w' q = Stat w q"
  by (simp add: others_def Stat_def)

text \<open>A write of \<open>d\<close> to the file \<open>p\<close> has reached the disk between \<open>w\<close> and \<open>w'\<close>.\<close>

definition appended :: "string \<Rightarrow> string \<Rightarrow> world \<Rightarrow> world \<Rightarrow> bool" where
  "appended p d w w' =
     (content w' p = content w p @ d \<and> others {p} w w' \<and> sameEnv w w' \<and>
      (Stat w p \<longrightarrow> Stat w' p))"

lemma appended_Nil: "appended p [] w w"
  by (simp add: appended_def others_refl sameEnv_refl)

lemma appended_trans:
  "appended p d w w1 \<Longrightarrow> appended p e w1 w2 \<Longrightarrow> appended p (d @ e) w w2"
  by (auto simp: appended_def intro: others_trans sameEnv_trans)

lemma fileWrite_path:
  assumes "target f = Path p" "\<not> fclosed f" "\<not> nospace w"
  shows "\<exists>w'. fileWrite f d w = (None, w') \<and> appended p d w w'"
  using assms
  by (simp add: fileWrite_def appended_def content_def others_def sameEnv_def Stat_def
      update_conv')

lemma bufFlush_path:
  assumes "target f = Path p" "\<not> fclosed f" "\<not> nospace w" "werr b = None"
  shows "\<exists>w'. bufFlush f b w = (b\<lparr>wbuf := []\<rparr>, w') \<and> appended p (wbuf b) w w'"
proof (cases "wbuf b = []")
  case True
  then show ?thesis using assms by (simp add: bufFlush_def appended_Nil)
next
  case False
  obtain w' where "fileWrite f (wbuf b) w = (None, w')" "appended p (wbuf b) w w'"
    using fileWrite_path [OF assms(1-3)] by blast
  then show ?thesis using False assms(4) by (simp add: bufFlush_def)
qed

lemma appended_nospace: "appended p d w w' \<Longrightarrow> nospace w' = nospace w"
  by (simp add: appended_def sameEnv_def)

lemma bufWrite_path:
  assumes "target f = Path p" "\<not> fclosed f" "\<not> nospace w" "werr b = None"
  shows "\<exists>b' w' d. bufWrite f b data w = (None, b', w') \<and> werr b' = None \<and>
           wsize b' = wsize b \<and> appended p d w w' \<and> d @ wbuf b' = wbuf b @ data"
  using assms
proof (induction f b data w rule: bufWrite.induct)
  case (1 f b data w)
  show ?case
  proof (cases "length data > wsize b - length (wbuf b) \<and> werr b = None")
    case False
    then have "bufWrite f b data w = (None, b\<lparr>wbuf := wbuf b @ data\<rparr>, w)"
      using "1.prems"(4) by (subst bufWrite.simps) simp
    then show ?thesis
      using "1.prems"(4) appended_Nil [of p w] by force
  next
    case True
    show ?thesis
    proof (cases "wbuf b = []")
      case e: True
      obtain y where fw: "fileWrite f data w = (None, y)" and ap: "appended p data w y"
        using fileWrite_path [OF "1.prems"(1-3)] by blast
      have ns: "\<not> nospace y" using ap "1.prems"(3) by (simp add: appended_nospace)
      have rec: "bufWrite f b [] y = (None, b, y)"
        using "1.prems"(4) e by (subst bufWrite.simps) simp
      have "bufWrite f b data w = (None, b, y)"
        using True e fw rec by (subst bufWrite.simps) simp
      then show ?thesis using ap e "1.prems"(4) by force
    next
      case ne: False
      let ?n = "wsize b - length (wbuf b)"
      let ?b1 = "b\<lparr>wbuf := wbuf b @ take ?n data\<rparr>"
      let ?bw = "bufFlush f ?b1 w"
      obtain y where fl: "?bw = (?b1\<lparr>wbuf := []\<rparr>, y)" and ap: "appended p (wbuf ?b1) w y"
        using bufFlush_path [OF "1.prems"(1-3), of ?b1] "1.prems"(4) by auto
      have ns: "\<not> nospace y" using ap "1.prems"(3) by (simp add: appended_nospace)
      have "\<exists>b' w' d. bufWrite f (fst ?bw) (drop ?n data) (snd ?bw) = (None, b', w') \<and>
           werr b' = None \<and> wsize b' = wsize (fst ?bw) \<and> appended p d (snd ?bw) w' \<and>
           d @ wbuf b' = wbuf (fst ?bw) @ drop ?n data"
        using "1.IH"(3) [OF True ne refl refl "1.prems"(1,2)] ns "1.prems"(4) fl by simp
      then obtain b' w' d where r: "bufWrite f (?b1\<lparr>wbuf := []\<rparr>) (drop ?n data) y = (None, b', w')"
        "werr b' = None" "wsize b' = wsize b" "appended p d y w'" "d @ wbuf b' = drop ?n data"
        using fl by auto
      have "bufWrite f b data w = (None, b', w')"
        using True ne fl r(1) by (subst bufWrite.simps) (simp add: Let_def)
      moreover have "appended p ((wbuf b @ take ?n data) @ d) w w'"
      proof -
        have "appended p (wbuf b @ take ?n data) w y" using ap by simp
        then show ?thesis using r(4) by (rule appended_trans)
      qed
      moreover have "((wbuf b @ take ?n data) @ d) @ wbuf b' = wbuf b @ data"
        using r(5) by simp
      ultimately show ?thesis using r(2,3) by blast
    qed
  qed
qed


text \<open>
  A sink in good order on the file \<open>p\<close>: size rotation only, the file open, no error
  in the writer, and an environment that lets \<open>p\<close> be opened and written.
\<close>

definition good :: "string \<Rightarrow> fileLogger \<Rightarrow> world \<Rightarrow> bool" where
  "good p lgr w =
     (File (conf lgr) = p \<and> RotateCycle (conf lgr) = CycleOff \<and> 0 < RotateBytes (conf lgr) \<and>
      rotate_on lgr \<and> file lgr = \<lparr>target = Path p, fclosed = False\<rparr> \<and>
      werr (writer lgr) = None \<and> \<not> nospace w \<and> p \<notin> set (noopen w) \<and> p \<noteq> [] \<and>
      ToLower p \<noteq> STDOUT \<and> ToLower p \<noteq> STDERR \<and> Stat w p)"

lemma nextFree_shape:
  "\<exists>k. nextFree w rotateFile count = rotateFile @ ''.'' @ Itoa k \<and> count \<le> k \<and>
       \<not> Stat w (rotateFile @ ''.'' @ Itoa k) \<and>
       (\<forall>j. count \<le> j \<and> j < k \<longrightarrow> Stat w (rotateFile @ ''.'' @ Itoa j))"
proof (induction w rotateFile count rule: nextFree.induct)
  case (1 w rotateFile count)
  show ?case
  proof (cases "Stat w (rotateFile @ ''.'' @ Itoa count)")
    case False
    then have "nextFree w rotateFile count = rotateFile @ ''.'' @ Itoa count"
      by (subst nextFree.simps) (simp add: Let_def)
    then show ?thesis using False by force
  next
    case True
    from "1.IH" [OF refl True]
    obtain k where k: "nextFree w rotateFile (Suc count) = rotateFile @ ''.'' @ Itoa k"
      "Suc count \<le> k" "\<not> Stat w (rotateFile @ ''.'' @ Itoa k)"
      "\<forall>j. Suc count \<le> j \<and> j < k \<longrightarrow> Stat w (rotateFile @ ''.'' @ Itoa j)"
      by blast
    have "nextFree w rotateFile count = rotateFile @ ''.'' @ Itoa k"
      using True k(1) by (subst nextFree.simps) (simp add: Let_def)
    moreover have "\<forall>j. count \<le> j \<and> j < k \<longrightarrow> Stat w (rotateFile @ ''.'' @ Itoa j)"
    proof (intro allI impI)
      fix j assume j: "count \<le> j \<and> j < k"
      show "Stat w (rotateFile @ ''.'' @ Itoa j)"
      proof (cases "j = count")
        case True
        then show ?thesis using \<open>Stat w (rotateFile @ ''.'' @ Itoa count)\<close> by simp
      next
        case False
        then show ?thesis using j k(4) by simp
      qed
    qed
    ultimately show ?thesis using k(2,3) by (intro exI [of _ k]) simp
  qed
qed

lemma rotatedName_longer: "length (File (conf lgr)) < length (rotatedName lgr w)"
proof (cases "Stat w (File (conf lgr) @ ''.'' @ rotateSuffix lgr)")
  case True
  obtain k where "nextFree w (File (conf lgr) @ ''.'' @ rotateSuffix lgr) 0 =
      (File (conf lgr) @ ''.'' @ rotateSuffix lgr) @ ''.'' @ Itoa k"
    using nextFree_shape [of w "File (conf lgr) @ ''.'' @ rotateSuffix lgr" 0] by blast
  then show ?thesis using True by (simp add: rotatedName_def Let_def)
next
  case False
  then show ?thesis by (simp add: rotatedName_def Let_def)
qed

lemma rotatedName_fresh: "\<not> Stat w (rotatedName lgr w)"
proof (cases "Stat w (File (conf lgr) @ ''.'' @ rotateSuffix lgr)")
  case True
  obtain k where "nextFree w (File (conf lgr) @ ''.'' @ rotateSuffix lgr) 0 =
      (File (conf lgr) @ ''.'' @ rotateSuffix lgr) @ ''.'' @ Itoa k"
      "\<not> Stat w ((File (conf lgr) @ ''.'' @ rotateSuffix lgr) @ ''.'' @ Itoa k)"
    using nextFree_shape [of w "File (conf lgr) @ ''.'' @ rotateSuffix lgr" 0] by blast
  then show ?thesis using True by (simp add: rotatedName_def Let_def)
next
  case False
  then show ?thesis by (simp add: rotatedName_def Let_def)
qed

lemma Rename_path:
  assumes "Stat w p" "rot \<noteq> p"
  shows "content (Rename p rot w) rot = content w p \<and> \<not> Stat (Rename p rot w) p \<and>
         others {p, rot} w (Rename p rot w) \<and>
         renames (Rename p rot w) = renames w @ [(p, rot)] \<and>
         noopen (Rename p rot w) = noopen w \<and> nospace (Rename p rot w) = nospace w \<and>
         diag (Rename p rot w) = diag w"
proof -
  obtain bs where bs: "map_of (files w) p = Some bs"
    using assms(1) by (auto simp: Stat_def)
  then have r: "Rename p rot w =
      w\<lparr>renames := renames w @ [(p, rot)],
        files := AList.update rot bs (AList.delete p (files w))\<rparr>"
    by (simp add: Rename_def Let_def)
  show ?thesis
    unfolding r using bs assms(2)
    by (simp add: content_def Stat_def others_def update_conv' delete_conv')
qed

lemma OpenFile_path:
  assumes "p \<noteq> []" "p \<notin> set (noopen w)" "\<not> Stat w p"
  shows "\<exists>w'. OpenFile p w = Inr (\<lparr>target = Path p, fclosed = False\<rparr>, w') \<and>
           content w' p = [] \<and> Stat w' p \<and> others {p} w w' \<and> sameEnv w w'"
  using assms
  by (simp add: OpenFile_def content_def Stat_def others_def sameEnv_def update_conv')

lemma ToFile_path:
  assumes "p \<noteq> []" "p \<notin> set (noopen w)" "\<not> Stat w p" "ToLower p \<noteq> STDOUT" "ToLower p \<noteq> STDERR"
  shows "\<exists>w'. ToFile p w = Inr (\<lparr>target = Path p, fclosed = False\<rparr>, w') \<and>
           content w' p = [] \<and> Stat w' p \<and> others {p} w w' \<and> sameEnv w w'"
  using OpenFile_path [OF assms(1-3)] assms(4,5) by (simp add: ToFile_def Let_def)


lemma rotating_path:
  assumes "good p lgr w"
  shows "\<exists>lgr' w'. rotating now lgr w = (lgr', w') \<and> good p lgr' w' \<and>
           conf lgr' = conf lgr \<and> rotateRemain lgr' = RotateBytes (conf lgr) \<and>
           wbuf (writer lgr') = [] \<and>
           rotatedName lgr w \<noteq> p \<and>
           renames w' = renames w @ [(p, rotatedName lgr w)] \<and>
           content w' (rotatedName lgr w) = content w p @ wbuf (writer lgr) \<and>
           content w' p = [] \<and> others {p, rotatedName lgr w} w w'"
proof -
  let ?rot = "rotatedName lgr w"
  have g: "File (conf lgr) = p" "file lgr = \<lparr>target = Path p, fclosed = False\<rparr>"
    "werr (writer lgr) = None" "\<not> nospace w" "p \<notin> set (noopen w)" "p \<noteq> []"
    "ToLower p \<noteq> STDOUT" "ToLower p \<noteq> STDERR" "Stat w p"
    "RotateCycle (conf lgr) = CycleOff" "0 < RotateBytes (conf lgr)" "rotate_on lgr"
    using assms by (simp_all add: good_def)
  have ne: "?rot \<noteq> p" using rotatedName_longer [of lgr w] g(1) by auto
  obtain w1 where fl: "bufFlush (file lgr) (writer lgr) w = ((writer lgr)\<lparr>wbuf := []\<rparr>, w1)"
    and ap: "appended p (wbuf (writer lgr)) w w1"
    using bufFlush_path [of "file lgr" p w "writer lgr"] g by auto
  have w1: "content w1 p = content w p @ wbuf (writer lgr)" "Stat w1 p" "others {p} w w1"
    "noopen w1 = noopen w" "nospace w1 = nospace w" "renames w1 = renames w"
    using ap g(9) by (simp_all add: appended_def sameEnv_def)
  let ?w2 = "Rename p ?rot w1"
  have w2: "content ?w2 ?rot = content w1 p" "\<not> Stat ?w2 p" "others {p, ?rot} w1 ?w2"
    "renames ?w2 = renames w1 @ [(p, ?rot)]" "noopen ?w2 = noopen w1" "nospace ?w2 = nospace w1"
    using Rename_path [OF w1(2) ne] by simp_all
  obtain w3 where tf: "ToFile p ?w2 = Inr (\<lparr>target = Path p, fclosed = False\<rparr>, w3)"
    and w3: "content w3 p = []" "Stat w3 p" "others {p} ?w2 w3" "sameEnv ?w2 w3"
    using ToFile_path [of p ?w2] g w2 w1 by auto
  have rot: "rotating now lgr w =
     (lgr\<lparr>writer := (writer lgr)\<lparr>wbuf := []\<rparr>, file := (file lgr)\<lparr>fclosed := True\<rparr>,
         file := \<lparr>target = Path p, fclosed = False\<rparr>,
         writer := NewWriterSize (BufferLength (conf lgr)),
         rotateMonth := tMonth now, rotateWeek := tWeekday now,
         rotateDay := tDay now, rotateHour := tHour now,
         rotateSuffix := formatSuffix now,
         rotateRemain := RotateBytes (conf lgr)\<rparr>, w3)"
    using fl tf g(1) by (simp add: rotating_def rotatedName_def Let_def)
  have o: "others {p, ?rot} w w3"
    using others_trans [OF others_mono [OF w1(3)] others_trans [OF w2(3) others_mono [OF w3(3)]]]
    by simp
  have c: "content w3 ?rot = content w p @ wbuf (writer lgr)"
    using others_content [OF w3(3), of ?rot] ne w2(1) w1(1) by simp
  have e: "renames w3 = renames w @ [(p, ?rot)]" "noopen w3 = noopen w" "nospace w3 = nospace w"
    using w3(4) w2 w1 by (simp_all add: sameEnv_def)
  show ?thesis
    unfolding rot using g ne o c e w3(1,2)
    by (simp add: good_def NewWriterSize_def)
qed

lemma good_remain: "good p (lgr\<lparr>rotateRemain := x\<rparr>) w = good p lgr w"
  by (simp add: good_def)

lemma WriteDirect_keeps:
  assumes "good p lgr w" "0 \<le> wrap64 (rotateRemain lgr - int (length (buffer r)))"
  shows "\<exists>lgr' w' d. WriteDirect now r lgr w = (lgr', w') \<and> good p lgr' w' \<and>
           conf lgr' = conf lgr \<and>
           rotateRemain lgr' = wrap64 (rotateRemain lgr - int (length (buffer r))) \<and>
           appended p d w w' \<and> d @ wbuf (writer lgr') = wbuf (writer lgr) @ buffer r"
proof -
  let ?l1 = "lgr\<lparr>rotateRemain := wrap64 (rotateRemain lgr - int (length (buffer r)))\<rparr>"
  have g: "File (conf lgr) = p" "file lgr = \<lparr>target = Path p, fclosed = False\<rparr>"
    "werr (writer lgr) = None" "\<not> nospace w" "p \<notin> set (noopen w)" "p \<noteq> []"
    "ToLower p \<noteq> STDOUT" "ToLower p \<noteq> STDERR" "Stat w p"
    "RotateCycle (conf lgr) = CycleOff" "0 < RotateBytes (conf lgr)" "rotate_on lgr"
    using assms(1) by (simp_all add: good_def)
  have bw: "beforeWrite now r lgr w = (?l1, w)"
    using g assms(2) by (simp add: beforeWrite_def Let_def)
  obtain b' w' d where r: "bufWrite (file lgr) (writer lgr) (buffer r) w = (None, b', w')"
    "werr b' = None" "appended p d w w'" "d @ wbuf b' = wbuf (writer lgr) @ buffer r"
    using bufWrite_path [of "file lgr" p w "writer lgr" "buffer r"] g by auto
  have wd: "WriteDirect now r lgr w = (?l1\<lparr>writer := b', records := Put (records lgr) r\<rparr>, w')"
    using bw r(1) by (simp add: WriteDirect_def Let_def)
  have "good p (?l1\<lparr>writer := b', records := Put (records lgr) r\<rparr>) w'"
    using g r(2,3) by (simp add: good_def appended_def sameEnv_def)
  then show ?thesis unfolding wd using r(3,4) by auto
qed

lemma WriteDirect_rolls:
  assumes "good p lgr w" "wrap64 (rotateRemain lgr - int (length (buffer r))) < 0"
  shows "\<exists>lgr' w' rot. WriteDirect now r lgr w = (lgr', w') \<and> good p lgr' w' \<and>
           conf lgr' = conf lgr \<and> rotateRemain lgr' = RotateBytes (conf lgr) \<and>
           rot \<noteq> p \<and> renames w' = renames w @ [(p, rot)] \<and>
           content w' rot = content w p @ wbuf (writer lgr) \<and>
           content w' p @ wbuf (writer lgr') = buffer r"
proof -
  let ?l1 = "lgr\<lparr>rotateRemain := wrap64 (rotateRemain lgr - int (length (buffer r)))\<rparr>"
  have g: "RotateCycle (conf lgr) = CycleOff" "0 < RotateBytes (conf lgr)" "rotate_on lgr"
    using assms(1) by (simp_all add: good_def)
  have g1: "good p ?l1 w" using assms(1) by (simp add: good_remain)
  have bw: "beforeWrite now r lgr w = rotating now ?l1 w"
    using g assms(2) by (simp add: beforeWrite_def Let_def)
  let ?rot = "rotatedName ?l1 w"
  obtain l2 w2 where ro: "rotating now ?l1 w = (l2, w2)" and g2: "good p l2 w2"
    and l2: "conf l2 = conf lgr" "rotateRemain l2 = RotateBytes (conf lgr)" "wbuf (writer l2) = []"
    and w2: "?rot \<noteq> p" "renames w2 = renames w @ [(p, ?rot)]"
      "content w2 ?rot = content w p @ wbuf (writer lgr)" "content w2 p = []"
    using rotating_path [OF g1, of now] by auto
  have h: "file l2 = \<lparr>target = Path p, fclosed = False\<rparr>" "werr (writer l2) = None"
    "\<not> nospace w2"
    using g2 by (simp_all add: good_def)
  obtain b' w' d where r: "bufWrite (file l2) (writer l2) (buffer r) w2 = (None, b', w')"
    "werr b' = None" "appended p d w2 w'" "d @ wbuf b' = wbuf (writer l2) @ buffer r"
    using bufWrite_path [of "file l2" p w2 "writer l2" "buffer r"] h by auto
  have wd: "WriteDirect now r lgr w = (l2\<lparr>writer := b', records := Put (records l2) r\<rparr>, w')"
    using bw ro r(1) by (simp add: WriteDirect_def Let_def)
  have g3: "good p (l2\<lparr>writer := b', records := Put (records l2) r\<rparr>) w'"
    using g2 r(2,3) by (simp add: good_def appended_def sameEnv_def)
  have "others {p} w2 w'" using r(3) by (simp add: appended_def)
  from others_content [OF this, of ?rot]
  have c1: "content w' ?rot = content w p @ wbuf (writer lgr)"
    using w2(1,3) by simp
  have c2: "content w' p @ b'' = buffer r" if "b'' = wbuf b'" for b''
    using r(3,4) w2(4) l2(3) that by (simp add: appended_def)
  have rn: "renames w' = renames w @ [(p, ?rot)]"
    using r(3) w2(2) by (simp add: appended_def sameEnv_def)
  show ?thesis
    unfolding wd using g3 l2 w2(1) rn c1 c2 by auto
qed

lemma Flush_path:
  assumes "good p lgr w"
  shows "\<exists>lgr' w'. Flush lgr w = (lgr', w') \<and>
           content w' p = content w p @ wbuf (writer lgr) \<and> others {p} w w' \<and>
           renames w' = renames w"
proof -
  have g: "file lgr = \<lparr>target = Path p, fclosed = False\<rparr>" "werr (writer lgr) = None"
    "\<not> nospace w"
    using assms by (simp_all add: good_def)
  obtain w1 where fl: "bufFlush (file lgr) (writer lgr) w = ((writer lgr)\<lparr>wbuf := []\<rparr>, w1)"
    and ap: "appended p (wbuf (writer lgr)) w w1"
    using bufFlush_path [of "file lgr" p w "writer lgr"] g by auto
  show ?thesis
    using fl ap by (simp add: Flush_def Let_def appended_def sameEnv_def)
qed


lemma WriteDirect_keeps_pending:
  assumes "good p lgr w" "0 \<le> wrap64 (rotateRemain lgr - int (length (buffer r)))"
  shows "\<exists>lgr' w'. WriteDirect now r lgr w = (lgr', w') \<and> good p lgr' w' \<and>
           conf lgr' = conf lgr \<and>
           rotateRemain lgr' = wrap64 (rotateRemain lgr - int (length (buffer r))) \<and>
           content w' p @ wbuf (writer lgr') = content w p @ wbuf (writer lgr) @ buffer r \<and>
           others {p} w w' \<and> renames w' = renames w"
proof -
  obtain lgr' w' d where k: "WriteDirect now r lgr w = (lgr', w')" "good p lgr' w'"
    "conf lgr' = conf lgr"
    "rotateRemain lgr' = wrap64 (rotateRemain lgr - int (length (buffer r)))"
    "appended p d w w'" "d @ wbuf (writer lgr') = wbuf (writer lgr) @ buffer r"
    using WriteDirect_keeps [OF assms, of now] by blast
  have "content w' p @ wbuf (writer lgr') = content w p @ (d @ wbuf (writer lgr'))"
    using k(5) by (simp add: appended_def)
  then have "content w' p @ wbuf (writer lgr') = content w p @ wbuf (writer lgr) @ buffer r"
    using k(6) by simp
  moreover have "others {p} w w'" "renames w' = renames w"
    using k(5) by (simp_all add: appended_def sameEnv_def)
  ultimately show ?thesis using k(1-4) by blast
qed

lemma mergeDefault_keeps:
  "File c0 \<noteq> [] \<Longrightarrow> File (mergeDefault (Some c0)) = File c0"
  "RotateBytes (mergeDefault (Some c0)) = RotateBytes c0"
  "RotateCycle (mergeDefault (Some c0)) = RotateCycle c0"
  by (simp_all add: mergeDefault_def Let_def)

lemma NewFileLogger_path:
  assumes "File c0 = p" "p \<noteq> []" "ToLower p \<noteq> STDOUT" "ToLower p \<noteq> STDERR"
    "p \<notin> set (noopen w)" "\<not> nospace w" "0 < RotateBytes c0" "RotateCycle c0 = CycleOff"
  shows "\<exists>lgr0 w0. NewFileLogger (Some c0) t0 w = Return (Inr lgr0, w0) \<and> good p lgr0 w0 \<and>
           RotateBytes (conf lgr0) = RotateBytes c0 \<and> rotateRemain lgr0 = RotateBytes c0 \<and>
           wbuf (writer lgr0) = [] \<and> content w0 p = content w p \<and> others {p} w w0 \<and>
           renames w0 = renames w"
proof -
  let ?w0 = "if Stat w p then w else w\<lparr>files := AList.update p [] (files w)\<rparr>"
  have tf: "ToFile (File c0) w = Inr (\<lparr>target = Path p, fclosed = False\<rparr>, ?w0)"
    using assms(1-5) by (simp add: ToFile_def OpenFile_def Let_def)
  have w0: "Stat ?w0 p" "content ?w0 p = content w p" "others {p} w ?w0"
    "renames ?w0 = renames w" "noopen ?w0 = noopen w" "nospace ?w0 = nospace w"
    by (auto simp: Stat_def content_def others_def update_conv' split: option.splits)
  have md: "File (mergeDefault (Some c0)) = p" "RotateBytes (mergeDefault (Some c0)) = RotateBytes c0"
    "RotateCycle (mergeDefault (Some c0)) = CycleOff"
    using assms(1,2,8) by (simp_all add: mergeDefault_keeps)
  obtain lgr0 where n: "NewFileLogger (Some c0) t0 w = Return (Inr lgr0, ?w0)"
    and l: "conf lgr0 = mergeDefault (Some c0)" "file lgr0 = \<lparr>target = Path p, fclosed = False\<rparr>"
      "writer lgr0 = NewWriterSize (BufferLength (mergeDefault (Some c0)))"
      "rotate_on lgr0" "rotateRemain lgr0 = RotateBytes c0"
    using tf assms(7) md(2) by (auto simp: NewFileLogger_def Let_def)
  have "good p lgr0 ?w0"
    unfolding good_def l md using w0(1,5,6) assms l(4) by (simp add: NewWriterSize_def)
  then show ?thesis
    using n l md w0 by (intro exI [of _ lgr0] exI [of _ ?w0]) (simp add: NewWriterSize_def)
qed

lemma wrap64_small: "- 100 \<le> x \<Longrightarrow> x \<le> 100 \<Longrightarrow> wrap64 x = x"
  by (simp add: wrap64_def)

text \<open>
  C1, as the source has it. A sink on a file \<open>p\<close> with \<open>RotateBytes = 100\<close> and no
  calendar rotation, in an environment that lets \<open>p\<close> be opened and written, takes five
  records of 30 bytes each on the direct path and is flushed. The first three writes
  make no rollover; the fourth brings the budget to -20 and rolls the file over
  before its bytes are appended, and that is the only rollover. The rotated file holds
  what \<open>p\<close> held before, then the first three records; the active file holds the fourth
  and the fifth record.
\<close>

theorem size_rollover_before_fourth:
  assumes "File c0 = p" and "RotateBytes c0 = 100" and "RotateCycle c0 = CycleOff"
    and "p \<noteq> []" and "ToLower p \<noteq> STDOUT" and "ToLower p \<noteq> STDERR"
    and "p \<notin> set (noopen w)" and "\<not> nospace w"
    and "length (buffer r1) = 30" and "length (buffer r2) = 30" and "length (buffer r3) = 30"
    and "length (buffer r4) = 30" and "length (buffer r5) = 30"
  shows "\<exists>lgr0 w0 lgr5 w5 lgrF wF rot.
           NewFileLogger (Some c0) t0 w = Return (Inr lgr0, w0) \<and>
           writeAll [(t1, r1), (t2, r2), (t3, r3), (t4, r4), (t5, r5)] lgr0 w0 = (lgr5, w5) \<and>
           Flush lgr5 w5 = (lgrF, wF) \<and>
           renames (snd (writeAll [(t1, r1), (t2, r2), (t3, r3)] lgr0 w0)) = renames w \<and>
           renames (snd (writeAll [(t1, r1), (t2, r2), (t3, r3), (t4, r4)] lgr0 w0)) =
             renames w @ [(p, rot)] \<and>
           renames wF = renames w @ [(p, rot)] \<and> rot \<noteq> p \<and>
           content wF rot = content w p @ buffer r1 @ buffer r2 @ buffer r3 \<and>
           content wF p = buffer r4 @ buffer r5"
proof -
  obtain lgr0 w0 where n: "NewFileLogger (Some c0) t0 w = Return (Inr lgr0, w0)"
    and g0: "good p lgr0 w0" and c0: "RotateBytes (conf lgr0) = 100" "rotateRemain lgr0 = 100"
    and b0: "wbuf (writer lgr0) = []" "content w0 p = content w p" "renames w0 = renames w"
    using NewFileLogger_path [of c0 p w t0] assms(1-8) by auto
  have s1: "0 \<le> wrap64 (rotateRemain lgr0 - int (length (buffer r1)))"
    using c0 assms(9) by (simp add: wrap64_small)
  obtain l1 w1 where d1: "WriteDirect t1 r1 lgr0 w0 = (l1, w1)" and g1: "good p l1 w1"
    and c1: "conf l1 = conf lgr0" "rotateRemain l1 = 70"
    and b1: "content w1 p @ wbuf (writer l1) = content w p @ buffer r1" "renames w1 = renames w"
    using WriteDirect_keeps_pending [OF g0 s1, of t1] c0 assms(9) b0 by (auto simp: wrap64_small)
  have s2: "0 \<le> wrap64 (rotateRemain l1 - int (length (buffer r2)))"
    using c1 assms(10) by (simp add: wrap64_small)
  obtain l2 w2 where d2: "WriteDirect t2 r2 l1 w1 = (l2, w2)" and g2: "good p l2 w2"
    and c2: "conf l2 = conf lgr0" "rotateRemain l2 = 40"
    and b2: "content w2 p @ wbuf (writer l2) = content w p @ buffer r1 @ buffer r2"
      "renames w2 = renames w"
    using WriteDirect_keeps_pending [OF g1 s2, of t2] c1 assms(10) b1 by (auto simp: wrap64_small)
  have s3: "0 \<le> wrap64 (rotateRemain l2 - int (length (buffer r3)))"
    using c2 assms(11) by (simp add: wrap64_small)
  obtain l3 w3 where d3: "WriteDirect t3 r3 l2 w2 = (l3, w3)" and g3: "good p l3 w3"
    and c3: "conf l3 = conf lgr0" "rotateRemain l3 = 10"
    and b3: "content w3 p @ wbuf (writer l3) = content w p @ buffer r1 @ buffer r2 @ buffer r3"
      "renames w3 = renames w"
    using WriteDirect_keeps_pending [OF g2 s3, of t3] c2 assms(11) b2 by (auto simp: wrap64_small)
  have s4: "wrap64 (rotateRemain l3 - int (length (buffer r4))) < 0"
    using c3 assms(12) by (simp add: wrap64_small)
  obtain l4 w4 rot where d4: "WriteDirect t4 r4 l3 w3 = (l4, w4)" and g4: "good p l4 w4"
    and c4: "conf l4 = conf lgr0" "rotateRemain l4 = 100"
    and b4: "rot \<noteq> p" "renames w4 = renames w @ [(p, rot)]"
      "content w4 rot = content w p @ buffer r1 @ buffer r2 @ buffer r3"
      "content w4 p @ wbuf (writer l4) = buffer r4"
    using WriteDirect_rolls [OF g3 s4, of t4] c3 c0 b3 by auto
  have s5: "0 \<le> wrap64 (rotateRemain l4 - int (length (buffer r5)))"
    using c4 assms(13) by (simp add: wrap64_small)
  obtain l5 w5 where d5: "WriteDirect t5 r5 l4 w4 = (l5, w5)" and g5: "good p l5 w5"
    and b5: "content w5 p @ wbuf (writer l5) = buffer r4 @ buffer r5"
      "renames w5 = renames w @ [(p, rot)]" "others {p} w4 w5"
    using WriteDirect_keeps_pending [OF g4 s5, of t5] b4 by auto
  obtain lF wF where f: "Flush l5 w5 = (lF, wF)"
    and bF: "content wF p = content w5 p @ wbuf (writer l5)" "others {p} w5 wF"
      "renames wF = renames w5"
    using Flush_path [OF g5] by blast
  have rotF: "content wF rot = content w p @ buffer r1 @ buffer r2 @ buffer r3"
    using others_content [OF bF(2), of rot] others_content [OF b5(3), of rot] b4(1,3) by simp
  have a3: "writeAll [(t1, r1), (t2, r2), (t3, r3)] lgr0 w0 = (l3, w3)"
    using d1 d2 d3 by (simp add: Let_def)
  have a4: "writeAll [(t1, r1), (t2, r2), (t3, r3), (t4, r4)] lgr0 w0 = (l4, w4)"
    using d1 d2 d3 d4 by (simp add: Let_def)
  have a5: "writeAll [(t1, r1), (t2, r2), (t3, r3), (t4, r4), (t5, r5)] lgr0 w0 = (l5, w5)"
    using d1 d2 d3 d4 d5 by (simp add: Let_def)
  show ?thesis
    using n a3 a4 a5 f b3(2) b4(1,2) b5 bF rotF
    by (intro exI [of _ lgr0] exI [of _ w0] exI [of _ l5] exI [of _ w5] exI [of _ lF]
        exI [of _ wF] exI [of _ rot]) simp
qed

section \<open>Size rotation: the run on concrete records\<close>

lemma ex_rotate_built:
  "NewFileLogger (Some ex_rotate_config) ex_time ex_world =
     Return (Inr (ex_state ex_time 100 [] []), ex_opened)"
  by (simp add: NewFileLogger_def ex_rotate_config_def ex_sink_def ex_state_def newFileConfig_def
      ToFile_def ToLower_def lower_def STDOUT_def STDERR_def mergeDefault_def Let_def
      createRecords_def defaultBufferLength_def defaultBufferPeriod_def
      defaultRecordLength_def defaultRecordFactor_def OpenFile_def Stat_def ex_world_def
      ex_opened_def ex_time_def formatSuffix_def two_def digits_def NewWriterSize_def)

lemma ex_write_keeps:
  assumes "30 \<le> remain" "remain \<le> 100" "length buffered \<le> 1000"
  shows "WriteDirect now (ex_record ch) (ex_state t remain buffered pooled) w =
     (ex_state t (remain - 30) (buffered @ replicate 30 ch) (ex_record ch # pooled), w)"
proof -
  have bw: "beforeWrite now (ex_record ch) (ex_state t remain buffered pooled) w =
      (ex_state t (remain - 30) buffered pooled, w)"
    using assms(1,2)
    by (simp add: beforeWrite_def ex_state_def ex_sink_def ex_rotate_config_def newFileConfig_def
        mergeDefault_def Let_def CycleOff_def ex_record_def wrap64_def)
  have wr: "bufWrite (file (ex_state t (remain - 30) buffered pooled))
      (writer (ex_state t (remain - 30) buffered pooled)) (buffer (ex_record ch)) w =
      (None, \<lparr>wbuf = buffered @ replicate 30 ch, wsize = 262144, werr = None\<rparr>, w)"
  proof -
    have "\<not> (262144 - length buffered < 30)" using assms(3) by arith
    then show ?thesis
      by (subst bufWrite.simps) (simp add: ex_state_def ex_record_def)
  qed
  show ?thesis
    unfolding WriteDirect_def bw Let_def fst_conv snd_conv wr
    by (simp add: ex_state_def Put_def createRecords_def ex_record_def wrap64_def)
qed

lemma ex_write_rolls:
  assumes "buffered \<noteq> []"
  shows "WriteDirect ex_late (ex_record ch) (ex_state ex_time 10 buffered pooled) ex_opened =
     (ex_state ex_late 100 (replicate 30 ch) (ex_record ch # pooled),
      ex_opened\<lparr>files := [(''app.log..101500'', buffered), (''app.log'', [])],
                renames := [(''app.log'', ''app.log..101500'')]\<rparr>)"
proof -
  have sfx: "formatSuffix ex_time = ''.101500''"
    by (simp add: formatSuffix_def two_def digits_def ex_time_def)
  let ?w = "ex_opened\<lparr>files := [(''app.log..101500'', buffered), (''app.log'', [])],
                renames := [(''app.log'', ''app.log..101500'')]\<rparr>"
  have bw: "beforeWrite ex_late (ex_record ch) (ex_state ex_time 10 buffered pooled) ex_opened =
      (ex_state ex_late 100 [] pooled, ?w)"
    using assms
    by (simp add: beforeWrite_def rotating_def ex_state_def ex_sink_def ex_rotate_config_def
        newFileConfig_def mergeDefault_def Let_def CycleOff_def ex_record_def wrap64_def sfx
        bufFlush_def fileWrite_def Rename_def ToFile_def OpenFile_def Stat_def content_def
        ToLower_def lower_def STDOUT_def STDERR_def ex_opened_def ex_world_def
        NewWriterSize_def defaultBufferLength_def)
  have wr: "bufWrite (file (ex_state ex_late 100 [] pooled))
      (writer (ex_state ex_late 100 [] pooled)) (buffer (ex_record ch)) ?w =
      (None, \<lparr>wbuf = replicate 30 ch, wsize = 262144, werr = None\<rparr>, ?w)"
    by (subst bufWrite.simps) (simp add: ex_state_def ex_record_def)
  show ?thesis
    unfolding WriteDirect_def bw Let_def fst_conv snd_conv wr
    by (simp add: ex_state_def Put_def createRecords_def ex_record_def wrap64_def)
qed


lemma ex_writes:
  "writeAll [(ex_time, ex_record CHR ''a''), (ex_time, ex_record CHR ''b''),
             (ex_time, ex_record CHR ''c''), (ex_late, ex_record CHR ''d''),
             (ex_late, ex_record CHR ''e'')]
     (ex_state ex_time 100 [] []) ex_opened =
   (ex_state ex_late 70 (replicate 30 CHR ''d'' @ replicate 30 CHR ''e'')
      [ex_record CHR ''e'', ex_record CHR ''d'', ex_record CHR ''c'', ex_record CHR ''b'',
       ex_record CHR ''a''],
    ex_opened\<lparr>files := [(''app.log..101500'',
                            replicate 30 CHR ''a'' @ replicate 30 CHR ''b'' @ replicate 30 CHR ''c''),
                           (''app.log'', [])],
              renames := [(''app.log'', ''app.log..101500'')]\<rparr>)"
proof -
  have 1: "WriteDirect ex_time (ex_record CHR ''a'') (ex_state ex_time 100 [] []) ex_opened =
      (ex_state ex_time 70 (replicate 30 CHR ''a'') [ex_record CHR ''a''], ex_opened)"
    using ex_write_keeps [of 100 "[]" ex_time "CHR ''a''" ex_time "[]" ex_opened] by simp
  have 2: "WriteDirect ex_time (ex_record CHR ''b'')
      (ex_state ex_time 70 (replicate 30 CHR ''a'') [ex_record CHR ''a'']) ex_opened =
      (ex_state ex_time 40 (replicate 30 CHR ''a'' @ replicate 30 CHR ''b'')
         [ex_record CHR ''b'', ex_record CHR ''a''], ex_opened)"
    using ex_write_keeps [of 70 "replicate 30 CHR ''a''" ex_time "CHR ''b''" ex_time
        "[ex_record CHR ''a'']" ex_opened] by simp
  have 3: "WriteDirect ex_time (ex_record CHR ''c'')
      (ex_state ex_time 40 (replicate 30 CHR ''a'' @ replicate 30 CHR ''b'')
         [ex_record CHR ''b'', ex_record CHR ''a'']) ex_opened =
      (ex_state ex_time 10 (replicate 30 CHR ''a'' @ replicate 30 CHR ''b'' @ replicate 30 CHR ''c'')
         [ex_record CHR ''c'', ex_record CHR ''b'', ex_record CHR ''a''], ex_opened)"
    using ex_write_keeps [of 40 "replicate 30 CHR ''a'' @ replicate 30 CHR ''b''" ex_time
        "CHR ''c''" ex_time "[ex_record CHR ''b'', ex_record CHR ''a'']" ex_opened] by simp
  let ?w = "ex_opened\<lparr>files := [(''app.log..101500'',
                            replicate 30 CHR ''a'' @ replicate 30 CHR ''b'' @ replicate 30 CHR ''c''),
                           (''app.log'', [])],
              renames := [(''app.log'', ''app.log..101500'')]\<rparr>"
  have 4: "WriteDirect ex_late (ex_record CHR ''d'')
      (ex_state ex_time 10 (replicate 30 CHR ''a'' @ replicate 30 CHR ''b'' @ replicate 30 CHR ''c'')
         [ex_record CHR ''c'', ex_record CHR ''b'', ex_record CHR ''a'']) ex_opened =
      (ex_state ex_late 100 (replicate 30 CHR ''d'')
         [ex_record CHR ''d'', ex_record CHR ''c'', ex_record CHR ''b'', ex_record CHR ''a''], ?w)"
    using ex_write_rolls [of "replicate 30 CHR ''a'' @ replicate 30 CHR ''b'' @ replicate 30 CHR ''c''"
        "CHR ''d''" "[ex_record CHR ''c'', ex_record CHR ''b'', ex_record CHR ''a'']"] by simp
  have 5: "WriteDirect ex_late (ex_record CHR ''e'')
      (ex_state ex_late 100 (replicate 30 CHR ''d'')
         [ex_record CHR ''d'', ex_record CHR ''c'', ex_record CHR ''b'', ex_record CHR ''a'']) ?w =
      (ex_state ex_late 70 (replicate 30 CHR ''d'' @ replicate 30 CHR ''e'')
         [ex_record CHR ''e'', ex_record CHR ''d'', ex_record CHR ''c'', ex_record CHR ''b'',
          ex_record CHR ''a''], ?w)"
    using ex_write_keeps [of 100 "replicate 30 CHR ''d''" ex_late "CHR ''e''" ex_late
        "[ex_record CHR ''d'', ex_record CHR ''c'', ex_record CHR ''b'', ex_record CHR ''a'']" ?w]
    by simp
  show ?thesis
    by (simp only: writeAll.simps Let_def 1 2 3 4 5 fst_conv snd_conv)
qed

lemma ex_run_value:
  "ex_run =
     ex_opened\<lparr>files := [(''app.log..101500'',
                            replicate 30 CHR ''a'' @ replicate 30 CHR ''b'' @ replicate 30 CHR ''c''),
                           (''app.log'', replicate 30 CHR ''d'' @ replicate 30 CHR ''e'')],
              renames := [(''app.log'', ''app.log..101500'')]\<rparr>"
  unfolding ex_run_def ex_writes Let_def fst_conv snd_conv
  by (simp add: Flush_def bufFlush_def fileWrite_def ex_state_def ex_sink_def content_def
      ex_opened_def ex_world_def Let_def ex_rotate_config_def newFileConfig_def)

text \<open>
  C1 as stated fails. In the run \<open>ex_run\<close> the one rollover happens before the fourth
  record is appended: the rotated file holds the first three records, not four, and
  the active file holds the fourth and the fifth, not the fifth alone.
\<close>

theorem four_in_rotated_file_counterexample:
  "NewFileLogger (Some ex_rotate_config) ex_time ex_world =
     Return (Inr (ex_state ex_time 100 [] []), ex_opened) \<and>
   renames ex_run = [(''app.log'', ''app.log..101500'')] \<and>
   content ex_run ''app.log..101500'' =
     buffer (ex_record CHR ''a'') @ buffer (ex_record CHR ''b'') @ buffer (ex_record CHR ''c'') \<and>
   content ex_run ''app.log..101500'' \<noteq>
     buffer (ex_record CHR ''a'') @ buffer (ex_record CHR ''b'') @ buffer (ex_record CHR ''c'') @
     buffer (ex_record CHR ''d'') \<and>
   content ex_run ''app.log'' = buffer (ex_record CHR ''d'') @ buffer (ex_record CHR ''e'') \<and>
   content ex_run ''app.log'' \<noteq> buffer (ex_record CHR ''e'')"
  unfolding ex_run_value
  by (simp add: ex_rotate_built content_def ex_record_def)

text \<open>
  The scenario on \<open>app.log\<close> in the empty world.
\<close>

theorem size_rollover_before_fourth_witness:
  "File ex_rotate_config = ''app.log'' \<and> RotateBytes ex_rotate_config = 100 \<and>
   RotateCycle ex_rotate_config = CycleOff \<and> ToLower ''app.log'' \<noteq> STDOUT \<and>
   ToLower ''app.log'' \<noteq> STDERR \<and> ''app.log'' \<notin> set (noopen ex_world) \<and>
   \<not> nospace ex_world \<and> length (buffer (ex_record CHR ''a'')) = 30 \<and>
   (\<exists>lgr0 w0 lgr5 w5 lgrF wF rot.
      NewFileLogger (Some ex_rotate_config) ex_time ex_world = Return (Inr lgr0, w0) \<and>
      writeAll [(ex_time, ex_record CHR ''a''), (ex_time, ex_record CHR ''b''),
                (ex_time, ex_record CHR ''c''), (ex_late, ex_record CHR ''d''),
                (ex_late, ex_record CHR ''e'')] lgr0 w0 = (lgr5, w5) \<and>
      Flush lgr5 w5 = (lgrF, wF) \<and>
      renames wF = [(''app.log'', rot)] \<and> rot \<noteq> ''app.log'' \<and>
      content wF rot =
        buffer (ex_record CHR ''a'') @ buffer (ex_record CHR ''b'') @ buffer (ex_record CHR ''c'') \<and>
      content wF ''app.log'' = buffer (ex_record CHR ''d'') @ buffer (ex_record CHR ''e''))"
proof -
  have h: "File ex_rotate_config = ''app.log''" "RotateBytes ex_rotate_config = 100"
    "RotateCycle ex_rotate_config = CycleOff" "''app.log'' \<noteq> []"
    "ToLower ''app.log'' \<noteq> STDOUT" "ToLower ''app.log'' \<noteq> STDERR"
    "''app.log'' \<notin> set (noopen ex_world)" "\<not> nospace ex_world"
    by (simp_all add: ex_rotate_config_def newFileConfig_def CycleOff_def ToLower_def lower_def
        STDOUT_def STDERR_def ex_world_def)
  have l: "length (buffer (ex_record ch)) = 30" for ch
    by (simp add: ex_record_def)
  have e: "renames ex_world = []" "content ex_world ''app.log'' = []"
    by (simp_all add: ex_world_def content_def)
  from size_rollover_before_fourth [of ex_rotate_config "''app.log''" ex_world
      "ex_record CHR ''a''" "ex_record CHR ''b''" "ex_record CHR ''c''" "ex_record CHR ''d''"
      "ex_record CHR ''e''" ex_time ex_time ex_time ex_time ex_late ex_late, OF h l l l l l]
  obtain lgr0 w0 lgr5 w5 lgrF wF rot where
    "NewFileLogger (Some ex_rotate_config) ex_time ex_world = Return (Inr lgr0, w0)"
    "writeAll [(ex_time, ex_record CHR ''a''), (ex_time, ex_record CHR ''b''),
                (ex_time, ex_record CHR ''c''), (ex_late, ex_record CHR ''d''),
                (ex_late, ex_record CHR ''e'')] lgr0 w0 = (lgr5, w5)"
    "Flush lgr5 w5 = (lgrF, wF)"
    "renames wF = [(''app.log'', rot)]" "rot \<noteq> ''app.log''"
    "content wF rot =
        buffer (ex_record CHR ''a'') @ buffer (ex_record CHR ''b'') @ buffer (ex_record CHR ''c'')"
    "content wF ''app.log'' = buffer (ex_record CHR ''d'') @ buffer (ex_record CHR ''e'')"
    unfolding e by auto
  then show ?thesis using h l by blast
qed

section \<open>The daemon: when it returns\<close>

text \<open>The discard channel exists and is closed.\<close>

definition queueClosed :: "fileLogger \<Rightarrow> bool" where
  "queueClosed lgr = (case discard lgr of None \<Rightarrow> False | Some q \<Rightarrow> chClosed q)"

lemma WriteDirect_discard: "discard (fst (WriteDirect now r lgr w)) = discard lgr"
  using WriteDirect_fields [of now r lgr w] by simp

lemma Flush_discard: "discard (fst (Flush lgr w)) = discard lgr"
  by (simp add: Flush_def Let_def)

lemma protectDaemon_closed:
  "protectDaemon es lgr w = (res, es', lgr', w') \<Longrightarrow>
     queueClosed lgr' = queueClosed lgr \<and> (res = Some (Some ErrProcessDone) \<longrightarrow> queueClosed lgr)"
proof (induction es arbitrary: lgr w)
  case Nil
  then show ?case by simp
next
  case (Cons ev es)
  show ?case
  proof (cases ev)
    case (Receive now)
    show ?thesis
    proof (cases "discard lgr")
      case None
      then show ?thesis using Cons.prems Cons.IH [of lgr w] Receive by simp
    next
      case (Some q)
      show ?thesis
      proof (cases "items q")
        case Nil
        then show ?thesis
          using Cons.prems Cons.IH [of lgr w] Receive Some
          by (auto simp: queueClosed_def split: if_splits)
      next
        case (Cons rc rest)
        let ?l = "lgr\<lparr>discard := Some (q\<lparr>items := rest\<rparr>)\<rparr>"
        let ?lw = "WriteDirect now rc ?l w"
        have "protectDaemon es (fst ?lw) (snd ?lw) = (res, es', lgr', w')"
          using Cons.prems Receive Some Cons by (simp add: Let_def)
        from Cons.IH [OF this]
        have "queueClosed lgr' = queueClosed (fst ?lw) \<and>
              (res = Some (Some ErrProcessDone) \<longrightarrow> queueClosed (fst ?lw))" .
        moreover have "queueClosed (fst ?lw) = queueClosed lgr"
          using Some by (simp add: queueClosed_def WriteDirect_discard)
        ultimately show ?thesis by simp
      qed
    qed
  next
    case Tick
    let ?lw = "Flush lgr w"
    have "protectDaemon es (fst ?lw) (snd ?lw) = (res, es', lgr', w')"
      using Cons.prems Tick by (simp add: Let_def)
    from Cons.IH [OF this]
    show ?thesis by (simp add: queueClosed_def Flush_discard)
  next
    case (Fault prr)
    then show ?thesis using Cons.prems by auto
  qed
qed

lemma daemon_returns_closed: "fst (daemon es lgr w) \<Longrightarrow> queueClosed lgr"
proof (induction es lgr w rule: daemon.induct)
  case (1 es lgr w)
  obtain res es' lgr' w' where p: "protectDaemon es lgr w = (res, es', lgr', w')"
    by (cases "protectDaemon es lgr w") auto
  note c = protectDaemon_closed [OF p]
  show ?case
  proof (cases res)
    case None
    then show ?thesis using "1.prems" p by (subst (asm) daemon.simps) simp
  next
    case (Some err)
    show ?thesis
    proof (cases "err = Some ErrProcessDone")
      case True
      then show ?thesis using c Some by simp
    next
      case False
      have "fst (daemon es' lgr' (w'\<lparr>diag := diag w' @ [DaemonError err]\<rparr>))"
        using "1.prems" p Some False by (subst (asm) daemon.simps) simp
      from "1.IH" [OF p [symmetric] Some refl refl False this]
      show ?thesis using c by simp
    qed
  qed
qed

text \<open>
  C9, on any schedule. The daemon returns only on a sink whose discard channel is
  closed; on a closed channel with nothing left in it, the next receive makes it return,
  and nothing is reported. A receive that yields a record writes it through
  \<open>WriteDirect\<close> and the loop goes on; a tick flushes and the loop goes on. A panic in a
  turn is recovered: \<open>daemon panic\<close> and then \<open>daemon error\<close> (with the nil error) are
  reported, and the daemon goes on with the rest of the schedule.
\<close>

theorem daemon_stops_on_closed_queue:
  "(fst (daemon es lgr w) \<longrightarrow> (\<exists>q. discard lgr = Some q \<and> chClosed q)) \<and>
   (discard lgr = Some q \<and> chClosed q \<and> items q = [] \<longrightarrow>
      daemon (Receive now # es) lgr w = (True, lgr, w)) \<and>
   (discard lgr = Some q \<and> items q = rc # rest \<longrightarrow>
      daemon (Receive now # es) lgr w =
        daemon es (fst (WriteDirect now rc (lgr\<lparr>discard := Some (q\<lparr>items := rest\<rparr>)\<rparr>) w))
                  (snd (WriteDirect now rc (lgr\<lparr>discard := Some (q\<lparr>items := rest\<rparr>)\<rparr>) w))) \<and>
   daemon (Tick # es) lgr w = daemon es (fst (Flush lgr w)) (snd (Flush lgr w)) \<and>
   daemon (Fault prr # es) lgr w =
     daemon es lgr (w\<lparr>diag := diag w @ [DaemonPanic prr, DaemonError None]\<rparr>)"
proof -
  have 1: "fst (daemon es lgr w) \<longrightarrow> (\<exists>q. discard lgr = Some q \<and> chClosed q)"
    using daemon_returns_closed [of es lgr w]
    by (auto simp: queueClosed_def split: option.splits)
  have 2: "daemon (Receive now # es) lgr w = (True, lgr, w)"
    if "discard lgr = Some q \<and> chClosed q \<and> items q = []"
    using that by (subst daemon.simps) simp
  have 3: "daemon (Receive now # es) lgr w =
        daemon es (fst (WriteDirect now rc (lgr\<lparr>discard := Some (q\<lparr>items := rest\<rparr>)\<rparr>) w))
                  (snd (WriteDirect now rc (lgr\<lparr>discard := Some (q\<lparr>items := rest\<rparr>)\<rparr>) w))"
    if "discard lgr = Some q \<and> items q = rc # rest"
    using that by (subst daemon.simps, subst (2) daemon.simps) (simp add: Let_def)
  have 4: "daemon (Tick # es) lgr w = daemon es (fst (Flush lgr w)) (snd (Flush lgr w))"
    by (subst daemon.simps, subst (2) daemon.simps) (simp add: Let_def)
  have 5: "daemon (Fault prr # es) lgr w =
     daemon es lgr (w\<lparr>diag := diag w @ [DaemonPanic prr, DaemonError None]\<rparr>)"
    by (subst daemon.simps) simp
  show ?thesis using 1 2 3 4 5 by blast
qed


lemma ex_drain:
  "WriteDirect ex_time (ex_record CHR ''a'')
     ((ex_discard_sink [])\<lparr>discard := Some \<lparr>items = [], capacity = 2, chClosed = True\<rparr>\<rparr>) ex_world =
   ((ex_discard_sink [])\<lparr>discard := Some \<lparr>items = [], capacity = 2, chClosed = True\<rparr>,
       writer := \<lparr>wbuf = replicate 30 CHR ''a'', wsize = 262144, werr = None\<rparr>,
       records := (createRecords 2048 10)\<lparr>pool := [ex_record CHR ''a'']\<rparr>\<rparr>, ex_world)"
proof -
  let ?l = "(ex_discard_sink [])\<lparr>discard := Some \<lparr>items = [], capacity = 2, chClosed = True\<rparr>\<rparr>"
  have bw: "beforeWrite ex_time (ex_record CHR ''a'') ?l ex_world = (?l, ex_world)"
    by (simp add: beforeWrite_def ex_discard_sink_def)
  have wr: "bufWrite (file ?l) (writer ?l) (buffer (ex_record CHR ''a'')) ex_world =
      (None, \<lparr>wbuf = replicate 30 CHR ''a'', wsize = 262144, werr = None\<rparr>, ex_world)"
    by (subst bufWrite.simps) (simp add: ex_discard_sink_def ex_record_def NewWriterSize_def)
  show ?thesis
    unfolding WriteDirect_def bw Let_def fst_conv snd_conv wr
    by (simp add: ex_discard_sink_def Put_def createRecords_def ex_record_def wrap64_def)
qed

text \<open>
  \<open>Close\<close> closes the queue of the sink with the discard queue. After that, a panic is
  reported and the next receive ends the daemon; with one record left in the closed
  queue, the first receive writes it and the second ends the daemon. On the open queue
  the panic does not end the daemon.
\<close>

theorem daemon_stops_on_closed_queue_witness:
  "Close (ex_discard_sink []) =
     Return ((ex_discard_sink [])\<lparr>discard := Some \<lparr>items = [], capacity = 2, chClosed = True\<rparr>\<rparr>) \<and>
   daemon [Fault ''boom'', Receive ex_time]
     ((ex_discard_sink [])\<lparr>discard := Some \<lparr>items = [], capacity = 2, chClosed = True\<rparr>\<rparr>)
     ex_world =
     (True, (ex_discard_sink [])\<lparr>discard := Some \<lparr>items = [], capacity = 2, chClosed = True\<rparr>\<rparr>,
      ex_world\<lparr>diag := [DaemonPanic ''boom'', DaemonError None]\<rparr>) \<and>
   daemon [Receive ex_time, Receive ex_time]
     ((ex_discard_sink [])\<lparr>discard := Some \<lparr>items = [ex_record CHR ''a''], capacity = 2,
                                             chClosed = True\<rparr>\<rparr>)
     ex_world =
     (True,
      (ex_discard_sink [])\<lparr>discard := Some \<lparr>items = [], capacity = 2, chClosed = True\<rparr>,
         writer := \<lparr>wbuf = replicate 30 CHR ''a'', wsize = 262144, werr = None\<rparr>,
         records := (createRecords 2048 10)\<lparr>pool := [ex_record CHR ''a'']\<rparr>\<rparr>,
      ex_world) \<and>
   \<not> fst (daemon [Fault ''boom'', Tick, Receive ex_time] (ex_discard_sink []) ex_world)"
proof -
  let ?closed = "(ex_discard_sink [])\<lparr>discard := Some \<lparr>items = [], capacity = 2, chClosed = True\<rparr>\<rparr>"
  let ?q = "\<lparr>items = [], capacity = 2, chClosed = True\<rparr>"
  let ?one = "(ex_discard_sink [])\<lparr>discard := Some \<lparr>items = [ex_record CHR ''a''], capacity = 2,
                                             chClosed = True\<rparr>\<rparr>"
  let ?q1 = "\<lparr>items = [ex_record CHR ''a''], capacity = 2, chClosed = True\<rparr>"
  let ?done = "(ex_discard_sink [])\<lparr>discard := Some \<lparr>items = [], capacity = 2, chClosed = True\<rparr>,
         writer := \<lparr>wbuf = replicate 30 CHR ''a'', wsize = 262144, werr = None\<rparr>,
         records := (createRecords 2048 10)\<lparr>pool := [ex_record CHR ''a'']\<rparr>\<rparr>"
  let ?w = "ex_world\<lparr>diag := [DaemonPanic ''boom'', DaemonError None]\<rparr>"
  have c: "Close (ex_discard_sink []) = Return ?closed"
    by (simp add: Close_def bindR_def ex_discard_sink_def)
  have d: "discard ?closed = Some ?q \<and> chClosed ?q \<and> items ?q = []"
    by simp
  have dg: "ex_world\<lparr>diag := diag ex_world @ [DaemonPanic ''boom'', DaemonError None]\<rparr> = ?w"
    by (simp add: ex_world_def)
  have f: "daemon [Fault ''boom'', Receive ex_time] ?closed ex_world =
      daemon [Receive ex_time] ?closed ?w"
    using daemon_stops_on_closed_queue [of "[Receive ex_time]" ?closed ex_world _ _ _ _ "''boom''"]
    by (simp only: dg)
  have r: "daemon [Receive ex_time] ?closed ?w = (True, ?closed, ?w)"
    using daemon_stops_on_closed_queue [of "[]" ?closed ?w ?q ex_time] d by blast
  have d1: "discard ?one = Some ?q1 \<and> items ?q1 = [ex_record CHR ''a'']"
    by simp
  have u: "?one\<lparr>discard := Some (?q1\<lparr>items := []\<rparr>)\<rparr> = ?closed"
    by simp
  have s1: "daemon [Receive ex_time, Receive ex_time] ?one ex_world =
      daemon [Receive ex_time] ?done ex_world"
    using daemon_stops_on_closed_queue [of "[Receive ex_time]" ?one ex_world ?q1 ex_time
        "ex_record CHR ''a''" "[]"] d1
    unfolding u ex_drain by simp
  have d2: "discard ?done = Some ?q \<and> chClosed ?q \<and> items ?q = []"
    by simp
  have s2: "daemon [Receive ex_time] ?done ex_world = (True, ?done, ex_world)"
    using daemon_stops_on_closed_queue [of "[]" ?done ex_world ?q ex_time] d2 by blast
  have n: "\<not> fst (daemon [Fault ''boom'', Tick, Receive ex_time] (ex_discard_sink []) ex_world)"
    using daemon_stops_on_closed_queue
      [of "[Fault ''boom'', Tick, Receive ex_time]" "ex_discard_sink []" ex_world]
    by (auto simp: ex_discard_sink_def)
  show ?thesis using c f r s1 s2 n by simp
qed

end
